theory Spec2Isabelle
  imports Complex_Main "HOL-Library.Sublist"
begin

section \<open>NavAI: shared types (shared/types.ts)\<close>

text \<open>
  JavaScript numbers that count things (\<open>idx\<close>, \<open>step\<close>, scores) are integers far below
  \<open>2^53\<close> and are modelled as \<open>int\<close>; geometry (\<open>rect\<close>) is modelled as \<open>real\<close>.
  Strings are lists of code units; the model covers ASCII text, where \<open>toLowerCase\<close>
  only touches \<open>A\<close>-\<open>Z\<close>. An optional field \<open>f?: T\<close> is a \<open>T option\<close> (\<open>None\<close> is
  \<open>undefined\<close>). Field names shared by several interfaces carry a prefix.
\<close>

datatype ActionType = Click | Type | Select | Scroll | Wait

datatype PlannerMode = Heuristic | Llm

record Rect =
  rect_top :: real
  rect_left :: real
  rect_width :: real
  rect_height :: real

record PageElement =
  idx :: int
  tag :: string
  role :: string
  el_text :: string
  label :: string
  el_selector :: string
  rect :: Rect
  isInput :: bool
  inputType :: "string option"
  placeholder :: "string option"
  el_value :: "string option"
  isRequired :: "bool option"
  isFilled :: "bool option"
  isInViewport :: bool
  isInDialog :: bool

record PageData =
  url :: string
  title :: string
  elements :: "PageElement list"
  hasOpenDialog :: bool

record GuidanceStep =
  stepNumber :: int
  gs_action :: ActionType
  gs_selector :: string
  textHint :: string
  instruction :: string

record ActionRecord =
  ar_step :: int
  ar_action :: ActionType
  ar_selector :: string
  ar_text :: string

record SessionState =
  goal :: string
  active :: bool
  completed :: bool
  step :: int
  current :: "GuidanceStep option"
  history :: "ActionRecord list"
  mode :: PlannerMode

datatype Provider = Openai | Anthropic | Custom

record LLMConfig =
  provider :: Provider
  endpoint :: string
  apiKey :: string
  model :: string

datatype Message =
    START string PlannerMode
  | STOP
  | SKIP
  | RESCAN
  | EXTRACT
  | PAGE_DATA PageData
  | SHOW_STEP GuidanceStep
  | HIDE_OVERLAY
  | ACTION_DONE ActionType
  | NAV_CHANGE string
  | GET_STATE
  | STATE SessionState
  | COMPLETED
  | ERROR string

section \<open>JavaScript string operations used by the planner\<close>

definition lowerChar :: "char \<Rightarrow> char" where
  "lowerChar c =
     (let n = (of_char c :: nat) in if 65 \<le> n \<and> n \<le> 90 then char_of (n + 32) else c)"

definition toLowerCase :: "string \<Rightarrow> string" where
  "toLowerCase s = map lowerChar s"

definition startsWith :: "string \<Rightarrow> string \<Rightarrow> bool" where
  "startsWith s p = (take (length p) s = p)"

text \<open>\<open>s.includes(t)\<close>: \<open>t\<close> occurs in \<open>s\<close> as a contiguous substring.\<close>

fun includesJS :: "string \<Rightarrow> string \<Rightarrow> bool" where
  "includesJS [] t = (t = [])"
| "includesJS (c # s) t = (startsWith (c # s) t \<or> includesJS s t)"

text \<open>\<open>s.substring(0, n)\<close>.\<close>

definition substring0 :: "string \<Rightarrow> nat \<Rightarrow> string" where
  "substring0 s n = take n s"

text \<open>The regular-expression classes \<open>\s\<close>, \<open>\d\<close>, \<open>\w\<close> and \<open>[a-z0-9\s]\<close> on ASCII.\<close>

definition isSpace :: "char \<Rightarrow> bool" where
  "isSpace c = (let n = (of_char c :: nat) in n = 32 \<or> (9 \<le> n \<and> n \<le> 13))"

definition isDigit :: "char \<Rightarrow> bool" where
  "isDigit c = (let n = (of_char c :: nat) in 48 \<le> n \<and> n \<le> 57)"

definition isWordChar :: "char \<Rightarrow> bool" where
  "isWordChar c =
     (let n = (of_char c :: nat)
      in (48 \<le> n \<and> n \<le> 57) \<or> (65 \<le> n \<and> n \<le> 90) \<or> (97 \<le> n \<and> n \<le> 122) \<or> n = 95)"

definition isLowerAlnumOrSpace :: "char \<Rightarrow> bool" where
  "isLowerAlnumOrSpace c =
     (let n = (of_char c :: nat)
      in (97 \<le> n \<and> n \<le> 122) \<or> (48 \<le> n \<and> n \<le> 57) \<or> isSpace c)"

text \<open>
  \<open>s.split(/\s+/)\<close> followed by a filter that drops strings of length at most 1: the
  pieces are the maximal runs of non-space characters (the empty pieces that \<open>split\<close>
  yields at the two ends never pass the filter).
\<close>

fun splitRuns :: "string \<Rightarrow> string \<Rightarrow> string list" where
  "splitRuns acc [] = (if acc = [] then [] else [rev acc])"
| "splitRuns acc (c # cs) =
     (if isSpace c then (if acc = [] then splitRuns [] cs else rev acc # splitRuns [] cs)
      else splitRuns (c # acc) cs)"

definition trim :: "string \<Rightarrow> string" where
  "trim s = rev (dropWhile isSpace (rev (dropWhile isSpace s)))"

text \<open>\<open>xs.join(' ')\<close>.\<close>

fun joinSp :: "string list \<Rightarrow> string" where
  "joinSp [] = []"
| "joinSp [x] = x"
| "joinSp (x # y # ys) = x @ '' '' @ joinSp (y # ys)"

text \<open>\<open>a || b\<close> on strings: the empty string is falsy.\<close>

definition orElse :: "string \<Rightarrow> string \<Rightarrow> string" where
  "orElse a b = (if a = [] then b else a)"

text \<open>\<open>x ?? ''\<close> on an optional string.\<close>

definition orEmpty :: "string option \<Rightarrow> string" where
  "orEmpty x = (case x of None \<Rightarrow> [] | Some s \<Rightarrow> s)"

text \<open>Truthiness of an optional boolean field (\<open>undefined\<close> is falsy).\<close>

definition truthy :: "bool option \<Rightarrow> bool" where
  "truthy b = (b = Some True)"

section \<open>Planner (shared/planner.ts)\<close>

subsection \<open>Keywords\<close>

definition STOP_WORDS :: "string list" where
  "STOP_WORDS = [''a'',''an'',''the'',''for'',''to'',''of'',''in'',''on'',''and'',''or'',''is'',
     ''my'',''i'',''it'',''this'',''that'',''do'',''you'',''your'',''me'',''can'',''will'',''how'']"

definition tokenize :: "string \<Rightarrow> string list" where
  "tokenize s =
     filter (\<lambda>w. length w > 1 \<and> w \<notin> set STOP_WORDS)
       (splitRuns [] (map (\<lambda>c. if isLowerAlnumOrSpace c then c else CHR '' '') (toLowerCase s)))"

definition CTA :: "string list" where
  "CTA = [''apply'',''start'',''next'',''continue'',''submit'',''search'',''book'',''confirm'',
     ''proceed'',''sign in'',''log in'',''register'',''enroll'',''flight'',''hotel'',''add'',
     ''create'',''send'',''save'',''checkout'',''buy'',''order'',''pay'',''begin'',
     ''get started'',''go'',''enter'',''open'']"

definition PROGRESS :: "string list" where
  "PROGRESS = [''next'',''continue'',''proceed'',''submit'',''confirm'',''done'',''finish'',
     ''complete'',''save'',''send'',''apply'']"

definition PENALTY :: "string list" where
  "PENALTY = [''logout'',''log out'',''sign out'',''cancel'',''back'',''close'',''skip'',
     ''no thanks'',''maybe later'',''dismiss'',''advertisement'',''ad'',''cookie'',''privacy'',
     ''terms'',''unsubscribe'',''decline'',''reject'']"

definition LOGIN_WORDS :: "string list" where
  "LOGIN_WORDS = [''sign in'',''log in'',''login'',''signin'',''email'',''username'',''password'']"

definition SUCCESS_WORDS :: "string list" where
  "SUCCESS_WORDS = [''success'',''thank you'',''thanks'',''congratulations'',''confirmed'',
     ''complete'',''submitted'',''done'',''receipt'',''order placed'',''booking confirmed'',
     ''payment received'']"

subsection \<open>Page phase detection\<close>

datatype PagePhase = Login | FormFill | Navigation | SubmitReady | Success

definition hasEmailInput :: "PageData \<Rightarrow> bool" where
  "hasEmailInput page =
     list_ex (\<lambda>e. isInput e \<and>
        list_ex (\<lambda>t. includesJS (orEmpty (inputType e)) t
                    \<or> includesJS (toLowerCase (orEmpty (placeholder e))) t
                    \<or> includesJS (toLowerCase (label e)) t) [''email'', ''username''])
       (elements page)"

definition hasPasswordInput :: "PageData \<Rightarrow> bool" where
  "hasPasswordInput page =
     list_ex (\<lambda>e. isInput e \<and>
        (inputType e = Some ''password''
         \<or> includesJS (toLowerCase (orEmpty (placeholder e))) ''password''))
       (elements page)"

definition emptyInputs :: "PageData \<Rightarrow> PageElement list" where
  "emptyInputs page =
     filter (\<lambda>e. isInput e \<and> \<not> truthy (isFilled e) \<and> inputType e \<noteq> Some ''hidden''
                \<and> inputType e \<noteq> Some ''submit'' \<and> inputType e \<noteq> Some ''button'')
       (elements page)"

definition filledInputs :: "PageData \<Rightarrow> PageElement list" where
  "filledInputs page = filter (\<lambda>e. isInput e \<and> truthy (isFilled e)) (elements page)"

definition detectPhase :: "PageData \<Rightarrow> PagePhase" where
  "detectPhase page =
     (let pageLower = toLowerCase (title page @ '' '' @ url page);
          visibleText = joinSp (map (\<lambda>e. toLowerCase (el_text e)) (take 20 (elements page)))
      in if list_ex (\<lambda>w. includesJS pageLower w) SUCCESS_WORDS then Success
         else if list_ex (\<lambda>w. includesJS visibleText w) SUCCESS_WORDS then Success
         else if hasEmailInput page \<and> hasPasswordInput page then Login
         else if emptyInputs page \<noteq> [] then FormFill
         else if filledInputs page \<noteq> [] then SubmitReady
         else Navigation)"

subsection \<open>Heuristic scorer\<close>

text \<open>A loop \<open>for (const w of ws) if (c w) s += k\<close> adds \<open>k\<close> once per word that passes.\<close>

definition bonus :: "int \<Rightarrow> (string \<Rightarrow> bool) \<Rightarrow> string list \<Rightarrow> int" where
  "bonus k c ws = sum_list (map (\<lambda>w. if c w then k else 0) ws)"

definition usedTextHit :: "PageElement \<Rightarrow> string list \<Rightarrow> bool" where
  "usedTextHit el usedTexts =
     (length (el_text el) > 3
      \<and> list_ex (\<lambda>t. length t > 3 \<and> includesJS t (substring0 (el_text el) 20)) usedTexts)"

definition loginScore :: "PageElement \<Rightarrow> int" where
  "loginScore el =
     (let txt = toLowerCase (el_text el);
          lbl = toLowerCase (label el);
          ph = toLowerCase (orEmpty (placeholder el));
          combined = txt @ '' '' @ lbl @ '' '' @ ph
      in (if isInput el \<and> \<not> truthy (isFilled el) then
            (if inputType el = Some ''email'' \<or> includesJS ph ''email'' \<or> includesJS lbl ''email''
                \<or> includesJS ph ''username'' \<or> includesJS lbl ''username'' then 40
             else if inputType el = Some ''password'' \<or> includesJS ph ''password''
                \<or> includesJS lbl ''password'' then 35
             else 0)
          else 0)
         + bonus 15 (includesJS combined) LOGIN_WORDS
         + (if \<not> isInput el \<and> isFilled el = None then bonus 10 (includesJS combined) LOGIN_WORDS
            else 0))"

definition formFillScore :: "PageElement \<Rightarrow> string list \<Rightarrow> int" where
  "formFillScore el keywords =
     (let lbl = toLowerCase (label el);
          ph = toLowerCase (orEmpty (placeholder el))
      in (if isInput el \<and> \<not> truthy (isFilled el) then
            25 + (if truthy (isRequired el) then 10 else 0)
               + bonus 15 (\<lambda>k. includesJS lbl k \<or> includesJS ph k) keywords
          else 0)
         + (if isInput el \<and> truthy (isFilled el) then - 30 else 0))"

definition submitReadyScore :: "PageElement \<Rightarrow> int" where
  "submitReadyScore el =
     (let txt = toLowerCase (el_text el);
          lbl = toLowerCase (label el);
          ph = toLowerCase (orEmpty (placeholder el));
          combined = txt @ '' '' @ lbl @ '' '' @ ph
      in bonus 25 (includesJS combined) PROGRESS
         + (if isInput el \<and> truthy (isFilled el) then - 30 else 0))"

definition navigationScore :: "PageElement \<Rightarrow> string list \<Rightarrow> int" where
  "navigationScore el keywords =
     (let txt = toLowerCase (el_text el);
          lbl = toLowerCase (label el);
          ph = toLowerCase (orEmpty (placeholder el));
          combined = txt @ '' '' @ lbl @ '' '' @ ph
      in bonus 20 (includesJS txt) keywords + bonus 15 (includesJS lbl) keywords
         + bonus 8 (includesJS combined) CTA)"

definition generalScore :: "PageElement \<Rightarrow> string list \<Rightarrow> int" where
  "generalScore el keywords =
     (let txt = toLowerCase (el_text el);
          lbl = toLowerCase (label el);
          ph = toLowerCase (orEmpty (placeholder el));
          combined = txt @ '' '' @ lbl @ '' '' @ ph
      in bonus 12 (includesJS txt) keywords + bonus 10 (includesJS lbl) keywords
         + bonus 8 (includesJS ph) keywords
         + bonus 5 (includesJS txt) CTA
         + bonus (- 25) (includesJS combined) PENALTY
         + (if tag el = ''button'' \<or> role el = ''button'' then 3 else 0)
         + (if tag el = ''a'' then 1 else 0)
         + (if isInput el \<and> \<not> truthy (isFilled el) then 2 else 0)
         + (if rect_width (rect el) > 100 \<and> rect_height (rect el) > 30 then 2 else 0)
         + (if rect_top (rect el) < 600 then 1 else 0))"

text \<open>
  \<open>score\<close>: the two early returns come first, in the source's order; the rest is the running
  sum \<open>s\<close>, split here into the source's commented sections.
\<close>

definition score ::
  "PageElement \<Rightarrow> string list \<Rightarrow> string set \<Rightarrow> string list \<Rightarrow> PagePhase \<Rightarrow> bool \<Rightarrow> int" where
  "score el keywords usedSelectors usedTexts phase dialogOpen =
     (if el_selector el \<in> usedSelectors then - 1000
      else if dialogOpen \<and> \<not> isInDialog el then - 2000
      else (if usedTextHit el usedTexts then - 50 else 0)
         + (if dialogOpen then 30 else 0)
         + (if isInViewport el then 5 else 0)
         + (if phase = Login then loginScore el else 0)
         + (if phase = FormFill then formFillScore el keywords else 0)
         + (if phase = SubmitReady then submitReadyScore el else 0)
         + (if phase = Navigation then navigationScore el keywords else 0)
         + generalScore el keywords)"

definition actionFor :: "PageElement \<Rightarrow> ActionType" where
  "actionFor el =
     (if isInput el then
        (let t = toLowerCase (case inputType el of None \<Rightarrow> ''text'' | Some x \<Rightarrow> x)
         in if t \<in> set [''checkbox'', ''radio'', ''submit'', ''button'', ''file''] then Click
            else if tag el = ''select'' then Select
            else Type)
      else if tag el = ''select'' then Select
      else Click)"

definition dq :: string where
  "dq = [char_of (34 :: nat)]"

definition instructionFor :: "PageElement \<Rightarrow> ActionType \<Rightarrow> PagePhase \<Rightarrow> string" where
  "instructionFor el act phase =
     (let name = orElse (label el) (orElse (substring0 (el_text el) 50)
                   (orElse (orEmpty (placeholder el)) ''this element''))
      in if phase = Login \<and> (inputType el = Some ''email''
              \<or> includesJS (toLowerCase (orEmpty (placeholder el))) ''email'')
           then ''Enter your email address''
         else if phase = Login \<and> inputType el = Some ''password'' then ''Enter your password''
         else if phase = Login \<and> act = Click then ''Click '' @ dq @ name @ dq @ '' to sign in''
         else if act = Click then ''Click '' @ dq @ name @ dq
         else if act = Type then
           ''Enter your '' @ orElse (label el) (orElse (orEmpty (placeholder el)) ''information'')
         else if act = Select then ''Select an option from '' @ dq @ name @ dq
         else ''Interact with '' @ dq @ name @ dq)"

subsection \<open>Heuristic planner\<close>

definition usedSelectorsOf :: "SessionState \<Rightarrow> string set" where
  "usedSelectorsOf st = set (map ar_selector (history st))"

definition usedTextsOf :: "SessionState \<Rightarrow> string list" where
  "usedTextsOf st = filter (\<lambda>t. length t > 3) (map ar_text (history st))"

text \<open>
  \<open>ranked\<close>: map each element to its score, keep scores above \<open>-500\<close>, sort by descending
  score. \<open>Array.prototype.sort\<close> is stable, as \<open>sort_key\<close> is.
\<close>

definition ranked :: "PageData \<Rightarrow> SessionState \<Rightarrow> PagePhase \<Rightarrow> (PageElement \<times> int) list" where
  "ranked page st phase =
     sort_key (\<lambda>x. - snd x)
       (filter (\<lambda>x. snd x > - 500)
          (map (\<lambda>el. (el, score el (tokenize (goal st)) (usedSelectorsOf st) (usedTextsOf st)
                              phase (hasOpenDialog page)))
             (elements page)))"

definition isFallbackInput :: "string set \<Rightarrow> PageElement \<Rightarrow> bool" where
  "isFallbackInput usedSelectors e =
     (isInput e \<and> \<not> truthy (isFilled e) \<and> isInViewport e \<and> el_selector e \<notin> usedSelectors)"

definition isFallbackButton :: "string set \<Rightarrow> PageElement \<Rightarrow> bool" where
  "isFallbackButton usedSelectors e =
     (\<not> isInput e \<and> isInViewport e \<and> el_selector e \<notin> usedSelectors
      \<and> (tag e = ''button'' \<or> role e = ''button'' \<or> tag e = ''a''))"

text \<open>The object literal that \<open>heuristicPlan\<close> and \<open>llmPlan\<close> return.\<close>

definition mkStep ::
  "SessionState \<Rightarrow> PageElement \<Rightarrow> ActionType \<Rightarrow> string \<Rightarrow> GuidanceStep" where
  "mkStep st el act instr =
     \<lparr> stepNumber = step st, gs_action = act, gs_selector = el_selector el,
       textHint = substring0 (el_text el) 60, instruction = instr \<rparr>"

definition heuristicPlan :: "PageData \<Rightarrow> SessionState \<Rightarrow> GuidanceStep option" where
  "heuristicPlan page st =
     (if length (elements page) = 0 then None
      else
        let phase = detectPhase page
        in if phase = Success \<and> step st > 1 then None
           else
             let usedSelectors = usedSelectorsOf st;
                 rk = ranked page st phase
             in if length rk > 0 \<and> snd (hd rk) > 0 then
                  (let best = fst (hd rk); act = actionFor best
                   in Some (mkStep st best act (instructionFor best act phase)))
                else
                  (case find (isFallbackInput usedSelectors) (elements page) of
                     Some fallbackInput \<Rightarrow>
                       (let act = actionFor fallbackInput
                        in Some (mkStep st fallbackInput act
                                   (instructionFor fallbackInput act phase)))
                   | None \<Rightarrow>
                       (case find (isFallbackButton usedSelectors) (elements page) of
                          Some fallbackButton \<Rightarrow>
                            Some (mkStep st fallbackButton Click
                                    (instructionFor fallbackButton Click phase))
                        | None \<Rightarrow> None)))"

definition isSuccessPage :: "PageData \<Rightarrow> bool" where
  "isSuccessPage page = (detectPhase page = Success)"

subsection \<open>LLM planner\<close>

text \<open>
  \<open>llmPlan\<close> builds a prompt, posts it and decodes the reply. The prompt only goes out over
  the network; what comes back is an input of the model. \<open>FetchRejected\<close> is \<open>fetch\<close>
  rejecting (network failure, or the abort at 15 s); \<open>HttpResponse status body\<close> is a
  response, with \<open>res.ok\<close> true for a status from 200 to 299. \<open>Malformed\<close> is a body for
  which \<open>res.json()\<close> or the property access throws; \<open>Completion t\<close> carries the text that
  the provider-specific path (\<open>content[0].text\<close> or \<open>choices[0].message.content\<close>, with
  \<open>?? ''\<close>) extracts.
\<close>

datatype LlmBody = Malformed | Completion string

datatype LlmReply = FetchRejected | HttpResponse int LlmBody

text \<open>A literal matched under the \<open>i\<close> flag, at the start of \<open>s\<close>; the rest is returned.\<close>

definition stripPrefixCI :: "string \<Rightarrow> string \<Rightarrow> string option" where
  "stripPrefixCI p s =
     (if toLowerCase (take (length p) s) = toLowerCase p then Some (drop (length p) s) else None)"

text \<open>
  \<open>/<Action>(\w+)\((\d+)?\)<\/Action>/i\<close> anchored at the start of \<open>s\<close>. The greedy
  groups take the whole run: the character after \<open>\w+\<close> must be \<open>(\<close> and the one after
  the digits must be \<open>)\<close>, which no shorter choice allows. The result is the pair of
  captures; the second is \<open>None\<close> when the optional group did not take part.
\<close>

definition matchActionAt :: "string \<Rightarrow> (string \<times> string option) option" where
  "matchActionAt s =
     (case stripPrefixCI ''<Action>'' s of
        None \<Rightarrow> None
      | Some r1 \<Rightarrow>
          (let name = takeWhile isWordChar r1 in
           if name = [] then None
           else
             (case dropWhile isWordChar r1 of
                [] \<Rightarrow> None
              | c # r2 \<Rightarrow>
                  if c \<noteq> CHR ''('' then None
                  else
                    (let ds = takeWhile isDigit r2 in
                     case dropWhile isDigit r2 of
                       [] \<Rightarrow> None
                     | d # r3 \<Rightarrow>
                         if d \<noteq> CHR '')'' then None
                         else
                           (case stripPrefixCI ''</Action>'' r3 of
                              None \<Rightarrow> None
                            | Some _ \<Rightarrow> Some (name, if ds = [] then None else Some ds))))))"

text \<open>\<open>raw.match(re)\<close> without the \<open>g\<close> flag: the leftmost position where the pattern matches.\<close>

fun matchAction :: "string \<Rightarrow> (string \<times> string option) option" where
  "matchAction [] = matchActionAt []"
| "matchAction (c # cs) =
     (case matchActionAt (c # cs) of Some m \<Rightarrow> Some m | None \<Rightarrow> matchAction cs)"

text \<open>\<open>parseInt(ds, 10)\<close> on a non-empty string of decimal digits.\<close>

definition parseInt10 :: "string \<Rightarrow> int" where
  "parseInt10 ds = foldl (\<lambda>a c. 10 * a + (int (of_char c) - 48)) 0 ds"

text \<open>
  \<open>/<Thought>(.*?)<\/Thought>/is\<close>: the first opening tag, then the text up to the first
  closing tag after it.
\<close>

fun findAfterCI :: "string \<Rightarrow> string \<Rightarrow> string option" where
  "findAfterCI p [] = stripPrefixCI p []"
| "findAfterCI p (c # cs) =
     (case stripPrefixCI p (c # cs) of Some r \<Rightarrow> Some r | None \<Rightarrow> findAfterCI p cs)"

fun beforeCI :: "string \<Rightarrow> string \<Rightarrow> string option" where
  "beforeCI p [] = (if p = [] then Some [] else None)"
| "beforeCI p (c # cs) =
     (case stripPrefixCI p (c # cs) of
        Some _ \<Rightarrow> Some []
      | None \<Rightarrow> map_option ((#) c) (beforeCI p cs))"

definition thoughtOf :: "string \<Rightarrow> string" where
  "thoughtOf raw =
     (case findAfterCI ''<Thought>'' raw of
        None \<Rightarrow> []
      | Some r \<Rightarrow> (case beforeCI ''</Thought>'' r of None \<Rightarrow> [] | Some t \<Rightarrow> trim t))"

definition llmPlan ::
  "PageData \<Rightarrow> SessionState \<Rightarrow> LLMConfig \<Rightarrow> LlmReply \<Rightarrow> GuidanceStep option" where
  "llmPlan page st config reply =
     (case reply of
        FetchRejected \<Rightarrow> None
      | HttpResponse status body \<Rightarrow>
          if \<not> (200 \<le> status \<and> status \<le> 299) then None
          else
            (case body of
               Malformed \<Rightarrow> None
             | Completion t \<Rightarrow>
                 (let raw = t @ ''</Action>'' in
                  case matchAction raw of
                    None \<Rightarrow> None
                  | Some (name, ds) \<Rightarrow>
                      (let actionName = toLowerCase name;
                           elementId = (case ds of None \<Rightarrow> - 1 | Some d \<Rightarrow> parseInt10 d)
                       in if actionName = ''wait'' \<or> elementId < 0 then None
                          else
                            (case find (\<lambda>e. idx e = elementId) (elements page) of
                               None \<Rightarrow> None
                             | Some el \<Rightarrow>
                                 (let thought = thoughtOf raw;
                                      act = (if actionName = ''select'' then Select
                                             else if actionName = ''type'' then Type
                                             else Click);
                                      phase = detectPhase page
                                  in Some (mkStep st el act
                                       (orElse thought (instructionFor el act phase)))))))))"

section \<open>Background service worker (the second module of content.ts)\<close>

text \<open>
  The worker's module state: the session \<open>state\<close>, the LLM configuration and the
  \<open>processing\<close> flag. \<open>EMPTY_STATE\<close> holds one array as its \<open>history\<close>; the spread
  \<open>{ ...EMPTY_STATE }\<close> copies the reference, so after \<open>START\<close> or \<open>STOP\<close> the session's
  history is that very array and a later \<open>push\<close> also changes what the next spread yields.
  \<open>emptyHistory\<close> is the content of that array and \<open>historyShared\<close> tells whether
  \<open>state.history\<close> is it (a state loaded from storage has an array of its own).
\<close>

record Orchestrator =
  state :: SessionState
  emptyHistory :: "ActionRecord list"
  historyShared :: bool
  llmConfig :: "LLMConfig option"
  processing :: bool

definition EMPTY_STATE :: "ActionRecord list \<Rightarrow> SessionState" where
  "EMPTY_STATE h =
     \<lparr> goal = [], active = False, completed = False, step = 1, current = None,
       history = h, mode = Heuristic \<rparr>"

definition isRestrictedUrl :: "string option \<Rightarrow> bool" where
  "isRestrictedUrl u =
     (case u of
        None \<Rightarrow> True
      | Some s \<Rightarrow>
          s = [] \<or> startsWith s ''chrome://'' \<or> startsWith s ''chrome-extension://''
          \<or> startsWith s ''edge://'' \<or> startsWith s ''about:''
          \<or> startsWith s ''chrome-search://'' \<or> startsWith s ''devtools://'')"

definition plan :: "PageData \<Rightarrow> Orchestrator \<Rightarrow> LlmReply \<Rightarrow> GuidanceStep option" where
  "plan page orc reply =
     (case llmConfig orc of
        None \<Rightarrow> heuristicPlan page (state orc)
      | Some config \<Rightarrow>
          if mode (state orc) = Llm \<and> apiKey config \<noteq> [] then
            (case llmPlan page (state orc) config reply of
               Some s \<Rightarrow> Some s
             | None \<Rightarrow> heuristicPlan page (state orc))
          else heuristicPlan page (state orc))"

text \<open>\<open>isStuck\<close>: \<open>recent\<close> is \<open>history.slice(-3)\<close>, the last three records or fewer.\<close>

definition isStuck :: "SessionState \<Rightarrow> GuidanceStep \<Rightarrow> bool" where
  "isStuck st s =
     (let recent = drop (length (history st) - 3) (history st)
      in if length recent < 3 then False
         else
           (let sameSelector = list_all (\<lambda>h. ar_selector h = gs_selector s) recent;
                sameText = (length (textHint s) > 3
                            \<and> list_all (\<lambda>h. ar_text h = textHint s) recent)
            in sameSelector \<or> sameText))"

subsection \<open>Core flow\<close>

text \<open>
  What one run of \<open>processTab\<close> gets from outside: the tab's URL (\<open>None\<close> when
  \<open>chrome.tabs.get\<close> fails or the tab has no URL), the answer to \<open>EXTRACT\<close> (a rejected
  \<open>sendMessage\<close>, an answer that is not \<open>PAGE_DATA\<close>, or the page), the LLM transport's
  reply, and whether delivering \<open>SHOW_STEP\<close> to the tab succeeds. Storage writes are taken
  to succeed.
\<close>

datatype ExtractResult = ExtractThrows | ExtractOther | ExtractPage PageData

record PassEnv =
  tabUrl :: "string option"
  extractResp :: ExtractResult
  llmReply :: LlmReply
  showStepOk :: bool

datatype Output = Broadcast Message | ToTab Message

definition restrictedMsg :: string where
  "restrictedMsg = ''NavAI cannot run on this page. Navigate to a regular website to continue.''"

definition unreadableMsg :: string where
  "unreadableMsg = ''Could not read this page. Try refreshing or navigating to another page.''"

definition stuckMsg :: string where
  "stuckMsg = ''Seems stuck on the same element. Try clicking Skip or rephrase your goal.''"

definition noStepMsg :: string where
  "noStepMsg = ''No clear next step found. Try '' @ dq @ ''Rescan'' @ dq
                 @ '' or scroll to reveal more elements.''"

definition connectMsg :: string where
  "connectMsg = ''Could not connect to this page. Try refreshing.''"

text \<open>
  The tail of \<open>processTab\<close>'s \<open>try\<close> block, from \<open>let step = await plan(page)\<close> on. The
  third component tells whether the \<open>catch\<close> block ran, which schedules the retry: here
  that happens when \<open>SHOW_STEP\<close> cannot be delivered.
\<close>

definition planAndCommit ::
  "PassEnv \<Rightarrow> PageData \<Rightarrow> Orchestrator \<Rightarrow> Orchestrator \<times> Output list \<times> bool" where
  "planAndCommit env page orc =
     (let cand = plan page orc (llmReply env);
          stuck = (case cand of None \<Rightarrow> False | Some s \<Rightarrow> isStuck (state orc) s);
          notice = (if stuck then [Broadcast (ERROR stuckMsg)] else []);
          cand' = (if stuck then None else cand)
      in case cand' of
           Some s \<Rightarrow>
             (let orc' = orc\<lparr>state := (state orc)\<lparr>current := Some s\<rparr>\<rparr>
              in (orc', notice @ [Broadcast (STATE (state orc')), ToTab (SHOW_STEP s)],
                  \<not> showStepOk env))
         | None \<Rightarrow>
             if \<not> completed (state orc) then
               (let orc' = orc\<lparr>state := (state orc)\<lparr>current := None\<rparr>\<rparr>
                in (orc', notice @ [Broadcast (STATE (state orc')), Broadcast (ERROR noStepMsg)],
                    False))
             else (orc, notice, False))"

text \<open>
  \<open>processTab\<close>, run without another handler in between. \<open>processing\<close> is set on entry and
  cleared by \<open>finally\<close>, so a run that gets past the guard leaves it as it found it.
\<close>

definition processTab ::
  "PassEnv \<Rightarrow> Orchestrator \<Rightarrow> Orchestrator \<times> Output list \<times> bool" where
  "processTab env orc =
     (if \<not> active (state orc) \<or> completed (state orc) then (orc, [], False)
      else if processing orc then (orc, [], False)
      else if isRestrictedUrl (tabUrl env) then (orc, [Broadcast (ERROR restrictedMsg)], False)
      else
        (case extractResp env of
           ExtractThrows \<Rightarrow> (orc, [], True)
         | ExtractOther \<Rightarrow> (orc, [Broadcast (ERROR unreadableMsg)], False)
         | ExtractPage page \<Rightarrow>
             if step (state orc) > 1 \<and> isSuccessPage page then
               (let orc' = orc\<lparr>state := (state orc)\<lparr>completed := True, current := None\<rparr>\<rparr>
                in (orc', [Broadcast (STATE (state orc')), Broadcast COMPLETED,
                           ToTab HIDE_OVERLAY], False))
             else planAndCommit env page orc))"

text \<open>The retry that the \<open>catch\<close> block schedules one second later.\<close>

definition retryTab :: "PassEnv \<Rightarrow> Orchestrator \<Rightarrow> Orchestrator \<times> Output list" where
  "retryTab env orc =
     (case extractResp env of
        ExtractThrows \<Rightarrow> (orc, [Broadcast (ERROR connectMsg)])
      | ExtractOther \<Rightarrow> (orc, [])
      | ExtractPage page \<Rightarrow>
          (case plan page orc (llmReply env) of
             None \<Rightarrow> (orc, [])
           | Some s \<Rightarrow>
               (let orc' = orc\<lparr>state := (state orc)\<lparr>current := Some s\<rparr>\<rparr>
                in (orc', [Broadcast (STATE (state orc')), ToTab (SHOW_STEP s)]
                          @ (if showStepOk env then [] else [Broadcast (ERROR connectMsg)])))))"

subsection \<open>Message handling\<close>

text \<open>\<open>state.history.push(r)\<close>: the shared array changes with it.\<close>

definition pushHistory :: "ActionRecord \<Rightarrow> Orchestrator \<Rightarrow> Orchestrator" where
  "pushHistory r orc =
     orc\<lparr> state := (state orc)\<lparr>history := history (state orc) @ [r]\<rparr>,
          emptyHistory := (if historyShared orc then emptyHistory orc @ [r]
                           else emptyHistory orc) \<rparr>"

text \<open>
  The bookkeeping shared by \<open>SKIP\<close> and \<open>ACTION_DONE\<close>: record the current step, if any, with
  the given action, then \<open>state.step++\<close> and \<open>state.current = null\<close>.
\<close>

definition closeStep :: "(GuidanceStep \<Rightarrow> ActionType) \<Rightarrow> Orchestrator \<Rightarrow> Orchestrator" where
  "closeStep actOf orc =
     (let orc1 = (case current (state orc) of
                    None \<Rightarrow> orc
                  | Some c \<Rightarrow>
                      pushHistory \<lparr> ar_step = step (state orc), ar_action = actOf c,
                                    ar_selector = gs_selector c, ar_text = textHint c \<rparr> orc)
      in orc1\<lparr>state := (state orc1)\<lparr>step := step (state orc1) + 1, current := None\<rparr>\<rparr>)"

text \<open>The synchronous part of the \<open>onMessage\<close> listener.\<close>

fun onMessage :: "Message \<Rightarrow> Orchestrator \<Rightarrow> Orchestrator" where
  "onMessage (START g m) orc =
     orc\<lparr> state := (EMPTY_STATE (emptyHistory orc))
                      \<lparr>goal := g, active := True, completed := False, mode := m\<rparr>,
          historyShared := True \<rparr>"
| "onMessage STOP orc = orc\<lparr>state := EMPTY_STATE (emptyHistory orc), historyShared := True\<rparr>"
| "onMessage SKIP orc = closeStep gs_action orc"
| "onMessage RESCAN orc = orc"
| "onMessage (ACTION_DONE a) orc =
     (if \<not> active (state orc) then orc else closeStep (\<lambda>_. a) orc)"
| "onMessage (NAV_CHANGE u) orc = orc"
| "onMessage GET_STATE orc = orc"
| "onMessage _ orc = orc"

text \<open>
  What the worker reacts to: a message, a run of \<open>processTab\<close> (scheduled by a handler or
  by the navigation listener), or a scheduled retry. \<open>run\<close> applies a sequence of them.
\<close>

datatype Event = Received Message | ProcessTab PassEnv | RetryTab PassEnv

fun fire :: "Event \<Rightarrow> Orchestrator \<Rightarrow> Orchestrator" where
  "fire (Received m) orc = onMessage m orc"
| "fire (ProcessTab env) orc = fst (processTab env orc)"
| "fire (RetryTab env) orc = fst (retryTab env orc)"

definition run :: "Event list \<Rightarrow> Orchestrator \<Rightarrow> Orchestrator" where
  "run es orc = foldl (\<lambda>acc e. fire e acc) orc es"

section \<open>Notions used to state the properties\<close>

text \<open>The score that \<open>heuristicPlan\<close> computes for an element of the snapshot.\<close>

definition scoreOf :: "PageData \<Rightarrow> SessionState \<Rightarrow> PageElement \<Rightarrow> int" where
  "scoreOf page st el =
     score el (tokenize (goal st)) (usedSelectorsOf st) (usedTextsOf st) (detectPhase page)
       (hasOpenDialog page)"

text \<open>The step that describes element \<open>el\<close> with action \<open>act\<close>, as the heuristic path words it.\<close>

definition stepFor :: "PageData \<Rightarrow> SessionState \<Rightarrow> PageElement \<Rightarrow> ActionType \<Rightarrow> GuidanceStep" where
  "stepFor page st el act = mkStep st el act (instructionFor el act (detectPhase page))"

text \<open>The last three records of the history (all of them when there are fewer).\<close>

definition recent3 :: "SessionState \<Rightarrow> ActionRecord list" where
  "recent3 st = drop (length (history st) - 3) (history st)"

text \<open>The events that install a fresh session state, and those that advance the counter.\<close>

fun isReset :: "Event \<Rightarrow> bool" where
  "isReset (Received (START g m)) = True"
| "isReset (Received STOP) = True"
| "isReset _ = False"

fun advances :: "bool \<Rightarrow> Event \<Rightarrow> bool" where
  "advances act (Received SKIP) = True"
| "advances act (Received (ACTION_DONE a)) = act"
| "advances act _ = False"

section \<open>Concrete snapshots and sessions\<close>

definition fx_rect :: Rect where
  "fx_rect = \<lparr> rect_top = 100, rect_left = 20, rect_width = 200, rect_height = 40 \<rparr>"

definition fx_button :: "int \<Rightarrow> string \<Rightarrow> string \<Rightarrow> bool \<Rightarrow> PageElement" where
  "fx_button i t sel inPanel =
     \<lparr> idx = i, tag = ''button'', role = ''button'', el_text = t, label = [], el_selector = sel,
       rect = fx_rect, isInput = False, inputType = None, placeholder = None, el_value = None,
       isRequired = None, isFilled = None, isInViewport = True, isInDialog = inPanel \<rparr>"

definition fx_input ::
  "int \<Rightarrow> string \<Rightarrow> string \<Rightarrow> string option \<Rightarrow> bool \<Rightarrow> bool \<Rightarrow> PageElement" where
  "fx_input i lbl sel ty req filled =
     \<lparr> idx = i, tag = ''input'', role = ''input'', el_text = [], label = lbl, el_selector = sel,
       rect = fx_rect, isInput = True, inputType = ty, placeholder = None, el_value = None,
       isRequired = Some req, isFilled = Some filled, isInViewport = True, isInDialog = False \<rparr>"

definition fx_session :: "string \<Rightarrow> PlannerMode \<Rightarrow> int \<Rightarrow> ActionRecord list \<Rightarrow> SessionState" where
  "fx_session g m n h =
     \<lparr> goal = g, active = True, completed = False, step = n, current = None, history = h,
       mode = m \<rparr>"

definition fx_config :: LLMConfig where
  "fx_config = \<lparr> provider = Custom, endpoint = ''https://llm.example/v1'', apiKey = ''k'',
                  model = ''m'' \<rparr>"

definition fx_orc :: "SessionState \<Rightarrow> Orchestrator" where
  "fx_orc st = \<lparr> state = st, emptyHistory = [], historyShared = False,
                 llmConfig = Some fx_config, processing = False \<rparr>"

definition fx_env :: "PageData \<Rightarrow> LlmReply \<Rightarrow> PassEnv" where
  "fx_env page reply = \<lparr> tabUrl = Some ''https://shop.example/'', extractResp = ExtractPage page,
                         llmReply = reply, showStepOk = True \<rparr>"

definition fx_submitted :: "int \<Rightarrow> ActionRecord" where
  "fx_submitted n = \<lparr> ar_step = n, ar_action = Click, ar_selector = ''#submit'',
                       ar_text = ''Submit'' \<rparr>"

text \<open>A compose panel with its \<open>Send\<close> button, over a page whose \<open>Submit\<close> button is occluded.\<close>

definition panelPage :: PageData where
  "panelPage = \<lparr> url = ''https://mail.example/inbox'', title = ''Inbox'',
                 elements = [fx_button 0 ''Send'' ''#send'' True,
                             fx_button 1 ''Submit'' ''#submit'' False],
                 hasOpenDialog = True \<rparr>"

definition panelSession :: SessionState where
  "panelSession = fx_session ''send the message'' Heuristic 1 []"

definition replyClick1 :: LlmReply where
  "replyClick1 = HttpResponse 200
     (Completion ''<Thought>Submit the form</Thought><Action>click(1)'')"

definition replyClick0 :: LlmReply where
  "replyClick0 = HttpResponse 200 (Completion ''<Action>click(0)'')"

text \<open>A checkout page: \<open>Submit\<close> and \<open>Next\<close> buttons.\<close>

definition checkoutPage :: PageData where
  "checkoutPage = \<lparr> url = ''https://shop.example/checkout'', title = ''Checkout'',
                    elements = [fx_button 0 ''Submit'' ''#submit'' False,
                                fx_button 1 ''Next'' ''#next'' False],
                    hasOpenDialog = False \<rparr>"

definition onceSubmitted :: "PlannerMode \<Rightarrow> SessionState" where
  "onceSubmitted m = fx_session ''submit the order'' m 2 [fx_submitted 1]"

definition thriceSubmitted :: "PlannerMode \<Rightarrow> SessionState" where
  "thriceSubmitted m =
     fx_session ''submit the order'' m 4 [fx_submitted 1, fx_submitted 2, fx_submitted 3]"

text \<open>A sign-in form whose password field is recognisable only by its label.\<close>

definition labelledLoginPage :: PageData where
  "labelledLoginPage = \<lparr> url = ''https://shop.example/signin'', title = ''Welcome'',
       elements = [fx_input 0 ''Email'' ''#user'' (Some ''email'') True False,
                   fx_input 1 ''Password'' ''#pw'' None True False],
       hasOpenDialog = False \<rparr>"

text \<open>The same form with a password field whose \<open>type\<close> attribute is written in capitals.\<close>

definition capitalTypeLoginPage :: PageData where
  "capitalTypeLoginPage = \<lparr> url = ''https://shop.example/signin'', title = ''Welcome'',
       elements = [fx_input 0 ''Email'' ''#user'' (Some ''email'') True False,
                   fx_input 1 [] ''#pw'' (Some ''PASSWORD'') True False],
       hasOpenDialog = False \<rparr>"

text \<open>A receipt page that still shows an empty input, and a page with a filled input button.\<close>

definition receiptPage :: PageData where
  "receiptPage = \<lparr> url = ''https://shop.example/receipt'', title = ''Order placed'',
       elements = [fx_input 0 ''Coupon'' ''#coupon'' (Some ''text'') False False],
       hasOpenDialog = False \<rparr>"

definition inputButtonPage :: PageData where
  "inputButtonPage = \<lparr> url = ''https://shop.example/cart'', title = ''Cart'',
       elements = [(fx_input 0 [] ''#go'' (Some ''text'') False True)\<lparr>role := ''button''\<rparr>],
       hasOpenDialog = False \<rparr>"

text \<open>The form of the specification's scenario: an empty required name, a filled e-mail.\<close>

definition licencePage :: PageData where
  "licencePage = \<lparr> url = ''https://dmv.example/apply'', title = ''Application'',
       elements = [fx_input 0 ''Email'' ''#email'' (Some ''email'') False True,
                   fx_input 1 ''Full Name'' ''#name'' (Some ''text'') True False],
       hasOpenDialog = False \<rparr>"

definition licenceSession :: SessionState where
  "licenceSession = fx_session ''apply for driver's license'' Heuristic 1 []"

definition completedOrc :: Orchestrator where
  "completedOrc = fx_orc ((fx_session ''submit the order'' Heuristic 3 [])\<lparr>completed := True\<rparr>)"

definition idleOrc :: Orchestrator where
  "idleOrc = fx_orc ((fx_session [] Heuristic 5 [])\<lparr>active := False\<rparr>)"

definition buyer :: "int \<Rightarrow> SessionState" where
  "buyer n = fx_session ''buy a ticket'' Heuristic n []"

text \<open>A page whose only candidates carry penalty words.\<close>

definition consentPage :: PageData where
  "consentPage = \<lparr> url = ''https://shop.example/consent'', title = ''Preferences'',
       elements = [fx_button 0 ''Cancel'' ''#cancel'' False,
                   fx_input 1 ''Reject cookie terms'' ''#consent'' (Some ''text'') False False],
       hasOpenDialog = False \<rparr>"

text \<open>The steps for the two buttons of the checkout page, and a trace without \<open>START\<close> or \<open>STOP\<close>.\<close>

definition nextStep :: GuidanceStep where
  "nextStep = stepFor checkoutPage (onceSubmitted Heuristic) (fx_button 1 ''Next'' ''#next'' False) Click"


definition submitStep :: GuidanceStep where
  "submitStep = stepFor checkoutPage (thriceSubmitted Llm) (fx_button 0 ''Submit'' ''#submit'' False) Click"

text \<open>The occluded page alone, still reported with the panel flag set.\<close>

definition occludedPage :: PageData where
  "occludedPage = panelPage\<lparr>elements := [fx_button 1 ''Submit'' ''#submit'' False]\<rparr>"

text \<open>A worker that was just loaded, with nothing in storage: its history is the shared array.\<close>

definition freshOrc :: Orchestrator where
  "freshOrc = \<lparr> state = EMPTY_STATE [], emptyHistory = [], historyShared = True,
                 llmConfig = None, processing = False \<rparr>"

definition quietTrace :: "Event list" where
  "quietTrace = [Received RESCAN, Received (NAV_CHANGE ''https://shop.example/receipt''),
                 ProcessTab (fx_env receiptPage replyClick0), Received (ACTION_DONE Click),
                 Received SKIP, RetryTab (fx_env checkoutPage replyClick0), Received GET_STATE]"

section \<open>Auxiliary facts\<close>

subsection \<open>Stable sorting and the ranking\<close>

lemma hd_insort_key:
  "hd (insort_key f x ys) = (if ys = [] \<or> f x \<le> f (hd ys) then x else hd ys)"
  by (cases ys) auto

lemma sort_key_eq_Nil: "(sort_key f xs = []) = (xs = [])"
  by (metis length_0_conv length_sort)

lemma sort_key_first_min:
  "xs \<noteq> [] \<Longrightarrow> \<exists>pre b post. xs = pre @ b # post \<and> hd (sort_key f xs) = b
      \<and> (\<forall>y\<in>set pre. f b < f y) \<and> (\<forall>y\<in>set post. f b \<le> f y)"
proof (induction xs)
  case Nil
  then show ?case by simp
next
  case (Cons x xs)
  show ?case
  proof (cases "xs = []")
    case True
    then have "x # xs = [] @ x # []" and "hd (sort_key f (x # xs)) = x" by simp_all
    then show ?thesis by (metis True empty_iff list.set(1))
  next
    case False
    from Cons.IH [OF False] obtain pre b post where
      d: "xs = pre @ b # post" and h: "hd (sort_key f xs) = b"
      and lt: "\<forall>y\<in>set pre. f b < f y" and le: "\<forall>y\<in>set post. f b \<le> f y"
      by blast
    have ne: "sort_key f xs \<noteq> []" using False by (simp add: sort_key_eq_Nil)
    show ?thesis
    proof (cases "f x \<le> f b")
      case True
      have "hd (sort_key f (x # xs)) = x"
        using True h ne by (simp add: hd_insort_key)
      moreover have "\<forall>y\<in>set xs. f x \<le> f y"
        using True lt le d by fastforce
      ultimately have "x # xs = [] @ x # xs \<and> hd (sort_key f (x # xs)) = x
          \<and> (\<forall>y\<in>set []. f x < f y) \<and> (\<forall>y\<in>set xs. f x \<le> f y)"
        by simp
      then show ?thesis by blast
    next
      case False
      have "hd (sort_key f (x # xs)) = b"
        using False h ne by (simp add: hd_insort_key)
      moreover have "\<forall>y\<in>set (x # pre). f b < f y"
        using False lt by auto
      ultimately have "x # xs = (x # pre) @ b # post \<and> hd (sort_key f (x # xs)) = b
          \<and> (\<forall>y\<in>set (x # pre). f b < f y) \<and> (\<forall>y\<in>set post. f b \<le> f y)"
        using d le by simp
      then show ?thesis by blast
    qed
  qed
qed


lemma filter_eq_append_ConsD:
  "filter P xs = ys @ b # zs \<Longrightarrow>
     \<exists>us vs. xs = us @ b # vs \<and> filter P us = ys \<and> filter P vs = zs \<and> P b"
proof (induction xs arbitrary: ys)
  case Nil
  then show ?case by simp
next
  case (Cons x xs)
  show ?case
  proof (cases "P x")
    case False
    with Cons.prems have "filter P xs = ys @ b # zs" by simp
    from Cons.IH [OF this] obtain us vs where
      "xs = us @ b # vs" "filter P us = ys" "filter P vs = zs" "P b" by blast
    with False have "x # xs = (x # us) @ b # vs \<and> filter P (x # us) = ys
        \<and> filter P vs = zs \<and> P b" by simp
    then show ?thesis by blast
  next
    case True
    show ?thesis
    proof (cases ys)
      case Nil
      with True Cons.prems have "x # xs = [] @ b # xs \<and> filter P [] = ys
          \<and> filter P xs = zs \<and> P b" by simp
      then show ?thesis by blast
    next
      case (Cons y ys')
      with True Cons.prems have xy: "x = y" and "filter P xs = ys' @ b # zs" by simp_all
      from Cons.IH [OF this(2)] obtain us vs where
        "xs = us @ b # vs" "filter P us = ys'" "filter P vs = zs" "P b" by blast
      with True xy Cons have "x # xs = (x # us) @ b # vs \<and> filter P (x # us) = ys
          \<and> filter P vs = zs \<and> P b" by simp
      then show ?thesis by blast
    qed
  qed
qed

lemma ranked_best:
  fixes sc :: "'a \<Rightarrow> int"
  assumes pos: "\<exists>e\<in>set els. sc e > 0"
  defines "rk \<equiv> sort_key (\<lambda>x. - snd x)
                  (filter (\<lambda>x. snd x > - 500) (map (\<lambda>el. (el, sc el)) els))"
  shows "\<exists>pre best post. els = pre @ best # post \<and> rk \<noteq> [] \<and> hd rk = (best, sc best)
           \<and> sc best > 0 \<and> (\<forall>e\<in>set pre. sc e < sc best) \<and> (\<forall>e\<in>set post. sc e \<le> sc best)"
proof -
  let ?P = "\<lambda>x::'a \<times> int. snd x > - 500"
  let ?g = "\<lambda>el. (el, sc el)"
  let ?fl = "filter ?P (map ?g els)"
  from pos obtain e where e: "e \<in> set els" "sc e > 0" by blast
  then have ein: "?g e \<in> set ?fl" by auto
  then have ne: "?fl \<noteq> []" by (metis empty_iff list.set(1))
  from sort_key_first_min [OF ne, of "\<lambda>x. - snd x"] obtain p1 b q1 where
    d1: "?fl = p1 @ b # q1" and h: "hd rk = b"
    and lt1: "\<forall>y\<in>set p1. snd y < snd b" and le1: "\<forall>y\<in>set q1. snd y \<le> snd b"
    unfolding rk_def by auto
  have bpos: "snd b > 0"
  proof -
    from ein d1 have "?g e \<in> set p1 \<or> ?g e = b \<or> ?g e \<in> set q1" by auto
    with lt1 le1 e(2) show ?thesis by force
  qed
  from filter_eq_append_ConsD [OF d1] obtain us vs where
    d2: "map ?g els = us @ b # vs" and fu: "filter ?P us = p1" and fv: "filter ?P vs = q1"
    by blast
  have ltu: "\<forall>y\<in>set us. snd y < snd b"
  proof
    fix y assume "y \<in> set us"
    show "snd y < snd b"
    proof (cases "?P y")
      case True
      with \<open>y \<in> set us\<close> fu have "y \<in> set p1" by auto
      with lt1 show ?thesis by blast
    next
      case False
      with bpos show ?thesis by simp
    qed
  qed
  have lev: "\<forall>y\<in>set vs. snd y \<le> snd b"
  proof
    fix y assume "y \<in> set vs"
    show "snd y \<le> snd b"
    proof (cases "?P y")
      case True
      with \<open>y \<in> set vs\<close> fv have "y \<in> set q1" by auto
      with le1 show ?thesis by blast
    next
      case False
      with bpos show ?thesis by simp
    qed
  qed
  from d2 obtain pre rest where
    d3: "els = pre @ rest" "us = map ?g pre" "b # vs = map ?g rest"
    by (auto simp: map_eq_append_conv)
  from d3(3) obtain best post where
    d4: "rest = best # post" "b = ?g best" "vs = map ?g post"
    by (cases rest) auto
  have "rk \<noteq> []" using ne unfolding rk_def by (simp add: sort_key_eq_Nil)
  moreover have "\<forall>e\<in>set pre. sc e < sc best" using ltu d3(2) d4(2) by auto
  moreover have "\<forall>e\<in>set post. sc e \<le> sc best" using lev d4(3) d4(2) by auto
  ultimately have "els = pre @ best # post \<and> rk \<noteq> [] \<and> hd rk = (best, sc best)
           \<and> sc best > 0 \<and> (\<forall>e\<in>set pre. sc e < sc best) \<and> (\<forall>e\<in>set post. sc e \<le> sc best)"
    using d3(1) d4 h bpos by simp
  then show ?thesis by blast
qed


lemma score_pos_unused:
  "score el kw used ut ph dlg > 0 \<Longrightarrow> el_selector el \<notin> used"
  by (simp add: score_def split: if_splits)

lemma score_pos_dialog:
  "score el kw used ut ph dlg > 0 \<Longrightarrow> dlg \<Longrightarrow> isInDialog el"
  by (simp add: score_def split: if_splits)

lemma heuristicPlan_ranked_path:
  assumes ns: "\<not> (detectPhase page = Success \<and> step st > 1)"
    and pos: "\<exists>e\<in>set (elements page). scoreOf page st e > 0"
  shows "\<exists>pre best post. elements page = pre @ best # post
           \<and> scoreOf page st best > 0
           \<and> (\<forall>e\<in>set pre. scoreOf page st e < scoreOf page st best)
           \<and> (\<forall>e\<in>set post. scoreOf page st e \<le> scoreOf page st best)
           \<and> heuristicPlan page st =
               Some (mkStep st best (actionFor best)
                       (instructionFor best (actionFor best) (detectPhase page)))"
proof -
  from ranked_best [OF pos] obtain pre best post where
    d: "elements page = pre @ best # post"
    and ne: "ranked page st (detectPhase page) \<noteq> []"
    and h: "hd (ranked page st (detectPhase page)) = (best, scoreOf page st best)"
    and bp: "scoreOf page st best > 0"
    and lt: "\<forall>e\<in>set pre. scoreOf page st e < scoreOf page st best"
    and le: "\<forall>e\<in>set post. scoreOf page st e \<le> scoreOf page st best"
    unfolding ranked_def scoreOf_def by blast
  have el: "elements page \<noteq> []" using d by simp
  have "heuristicPlan page st =
          Some (mkStep st best (actionFor best)
                  (instructionFor best (actionFor best) (detectPhase page)))"
    using ns el ne h bp by (simp add: heuristicPlan_def Let_def)
  with d bp lt le show ?thesis by blast
qed

lemma heuristicPlan_fallback_path:
  assumes ns: "\<not> (detectPhase page = Success \<and> step st > 1)"
    and np: "\<forall>e\<in>set (elements page). scoreOf page st e \<le> 0"
  shows "heuristicPlan page st =
          (case find (isFallbackInput (usedSelectorsOf st)) (elements page) of
             Some e \<Rightarrow> Some (mkStep st e (actionFor e)
                               (instructionFor e (actionFor e) (detectPhase page)))
           | None \<Rightarrow>
               (case find (isFallbackButton (usedSelectorsOf st)) (elements page) of
                  Some e \<Rightarrow> Some (mkStep st e Click (instructionFor e Click (detectPhase page)))
                | None \<Rightarrow> None))"
proof (cases "elements page = []")
  case True
  then show ?thesis by (simp add: heuristicPlan_def)
next
  case False
  let ?rk = "ranked page st (detectPhase page)"
  have nr: "\<not> (length ?rk > 0 \<and> snd (hd ?rk) > 0)"
  proof
    assume a: "length ?rk > 0 \<and> snd (hd ?rk) > 0"
    then have "hd ?rk \<in> set ?rk" by simp
    then obtain e where "e \<in> set (elements page)" "hd ?rk = (e, scoreOf page st e)"
      unfolding ranked_def scoreOf_def by auto
    with np a show False by force
  qed
  have "\<not> (0 < length ?rk \<and> 0 < snd (hd ?rk))" using nr by simp
  then show ?thesis
    unfolding heuristicPlan_def Let_def using ns False
    by (simp only: if_False if_True length_0_conv simp_thms)
qed

lemma heuristicPlan_success_guard:
  "detectPhase page = Success \<Longrightarrow> step st > 1 \<Longrightarrow> heuristicPlan page st = None"
  by (simp add: heuristicPlan_def)

lemma find_Some_holds: "find P xs = Some x \<Longrightarrow> P x \<and> x \<in> set xs"
  by (induction xs) (auto split: if_splits)

lemma heuristicPlan_unused:
  assumes "heuristicPlan page st = Some s"
  shows "gs_selector s \<notin> usedSelectorsOf st"
proof -
  have ns: "\<not> (detectPhase page = Success \<and> step st > 1)"
    using assms heuristicPlan_success_guard by fastforce
  show ?thesis
  proof (cases "\<exists>e\<in>set (elements page). scoreOf page st e > 0")
    case True
    from heuristicPlan_ranked_path [OF ns True] obtain best where
      "scoreOf page st best > 0"
      "heuristicPlan page st = Some (mkStep st best (actionFor best)
                       (instructionFor best (actionFor best) (detectPhase page)))"
      by blast
    with assms show ?thesis
      using score_pos_unused by (auto simp: scoreOf_def mkStep_def)
  next
    case False
    then have "\<forall>e\<in>set (elements page). scoreOf page st e \<le> 0" by force
    from heuristicPlan_fallback_path [OF ns this] assms show ?thesis
      by (auto simp: mkStep_def isFallbackInput_def isFallbackButton_def
               split: option.splits dest!: find_Some_holds)
  qed
qed


subsection \<open>The language-model reply\<close>

lemma llmPlan_named:
  assumes a: "llmPlan page st config reply = Some s"
  shows "\<exists>status t name ds e.
           reply = HttpResponse status (Completion t)
           \<and> 200 \<le> status \<and> status \<le> 299
           \<and> matchAction (t @ ''</Action>'') = Some (name, Some ds)
           \<and> toLowerCase name \<noteq> ''wait''
           \<and> find (\<lambda>x. idx x = parseInt10 ds) (elements page) = Some e
           \<and> gs_selector s = el_selector e
           \<and> textHint s = substring0 (el_text e) 60"
proof (cases reply)
  case FetchRejected
  with a show ?thesis by (simp add: llmPlan_def)
next
  case (HttpResponse status body)
  note r = this
  show ?thesis
  proof (cases body)
    case Malformed
    with a r show ?thesis by (simp add: llmPlan_def split: if_splits)
  next
    case (Completion t)
    note b = this
    from a r b have ok: "200 \<le> status \<and> status \<le> 299"
      by (simp add: llmPlan_def split: if_splits)
    show ?thesis
    proof (cases "matchAction (t @ ''</Action>'')")
      case None
      with a r b ok show ?thesis by (simp add: llmPlan_def)
    next
      case (Some m)
      obtain name ds where m: "m = (name, ds)" by (cases m)
      note ma = Some [unfolded m]
      show ?thesis
      proof (cases ds)
        case None
        with a r b ok ma show ?thesis by (simp add: llmPlan_def Let_def)
      next
        case (Some d)
        note dd = this
        from a r b ok ma dd have nw: "toLowerCase name \<noteq> ''wait''"
          by (simp add: llmPlan_def Let_def split: if_splits)
        show ?thesis
        proof (cases "find (\<lambda>x. idx x = parseInt10 d) (elements page)")
          case None
          with a r b ok ma dd nw show ?thesis
            by (simp add: llmPlan_def Let_def split: if_splits)
        next
          case (Some e)
          with a r b ok ma dd nw
          have "gs_selector s = el_selector e \<and> textHint s = substring0 (el_text e) 60"
            by (auto simp add: llmPlan_def Let_def mkStep_def split: if_splits)
          with r b ok ma dd nw Some show ?thesis by blast
        qed
      qed
    qed
  qed
qed

lemma find_idx_map:
  "(\<And>x. idx (g x) = idx x) \<Longrightarrow>
     find (\<lambda>x. idx x = k) (map g xs) = map_option g (find (\<lambda>x. idx x = k) xs)"
  by (induction xs) simp_all

lemma detectPhase_isInDialog:
  "detectPhase (page\<lparr>elements := map (\<lambda>e. e\<lparr>isInDialog := flag e\<rparr>) (elements page),
                     hasOpenDialog := d\<rparr>)
     = detectPhase page"
proof -
  let ?page = "page\<lparr>elements := map (\<lambda>e. e\<lparr>isInDialog := flag e\<rparr>) (elements page),
                     hasOpenDialog := d\<rparr>"
  have e: "hasEmailInput ?page = hasEmailInput page"
    by (simp add: hasEmailInput_def list_ex_iff)
  have p: "hasPasswordInput ?page = hasPasswordInput page"
    by (simp add: hasPasswordInput_def list_ex_iff)
  have i: "(emptyInputs ?page = []) = (emptyInputs page = [])"
    by (simp add: emptyInputs_def filter_empty_conv)
  have f: "(filledInputs ?page = []) = (filledInputs page = [])"
    by (simp add: filledInputs_def filter_empty_conv)
  have v: "map (\<lambda>e. toLowerCase (el_text e)) (take 20 (elements ?page))
             = map (\<lambda>e. toLowerCase (el_text e)) (take 20 (elements page))"
    by (simp add: take_map comp_def)
  have t: "title ?page = title page" "url ?page = url page" by simp_all
  show ?thesis
    unfolding detectPhase_def e p i f v t ..
qed

lemma instructionFor_isInDialog:
  "instructionFor (e\<lparr>isInDialog := b\<rparr>) act ph = instructionFor e act ph"
  by (simp add: instructionFor_def cong: if_cong)

lemma mkStep_isInDialog:
  "mkStep st (e\<lparr>isInDialog := b\<rparr>) act ins = mkStep st e act ins"
  by (simp add: mkStep_def)

lemma llmPlan_isInDialog:
  "llmPlan (page\<lparr>elements := map (\<lambda>e. e\<lparr>isInDialog := flag e\<rparr>) (elements page),
                 hasOpenDialog := d\<rparr>) st config reply
     = llmPlan page st config reply"
proof -
  let ?g = "\<lambda>e. e\<lparr>isInDialog := flag e\<rparr>"
  let ?page = "page\<lparr>elements := map ?g (elements page), hasOpenDialog := d\<rparr>"
  have dp: "detectPhase ?page = detectPhase page"
    by (rule detectPhase_isInDialog)
  have fi: "\<And>k. find (\<lambda>x. idx x = k) (elements ?page)
               = map_option ?g (find (\<lambda>x. idx x = k) (elements page))"
    by (simp add: find_idx_map)
  show ?thesis
    unfolding llmPlan_def dp fi
    by (simp add: Let_def instructionFor_isInDialog mkStep_isInDialog
          split: LlmReply.splits LlmBody.splits option.splits prod.splits)
qed

lemma foldl_digits_nonneg:
  "list_all isDigit ds \<Longrightarrow> 0 \<le> a \<Longrightarrow>
     0 \<le> foldl (\<lambda>a c. 10 * a + (int (of_char c) - 48)) a ds"
proof (induction ds arbitrary: a)
  case Nil
  then show ?case by simp
next
  case (Cons c cs)
  from Cons.prems have "48 \<le> (of_char c :: nat)" by (simp add: isDigit_def Let_def)
  then have "0 \<le> 10 * a + (int (of_char c) - 48)" using Cons.prems(2) by simp
  with Cons show ?case by simp
qed

lemma parseInt10_nonneg: "list_all isDigit ds \<Longrightarrow> 0 \<le> parseInt10 ds"
  by (simp add: parseInt10_def foldl_digits_nonneg)

lemma matchActionAt_digits:
  assumes "matchActionAt s = Some (name, Some ds)"
  shows "list_all isDigit ds"
proof -
  from assms have "\<exists>r. ds = takeWhile isDigit r"
    by (auto simp: matchActionAt_def Let_def split: option.splits list.splits if_splits)
  then show ?thesis by (auto simp: list_all_iff dest: set_takeWhileD)
qed

lemma matchAction_digits:
  "matchAction s = Some (name, Some ds) \<Longrightarrow> list_all isDigit ds"
proof (induction s)
  case Nil
  then show ?case by (simp add: matchActionAt_digits)
next
  case (Cons c cs)
  then show ?case
    by (cases "matchActionAt (c # cs)") (auto simp: matchActionAt_digits)
qed

lemma llmPlan_returns_named:
  assumes ok: "200 \<le> status \<and> status \<le> 299"
    and ma: "matchAction (t @ ''</Action>'') = Some (name, Some ds)"
    and nw: "toLowerCase name \<noteq> ''wait''"
    and fi: "find (\<lambda>x. idx x = parseInt10 ds) (elements page) = Some e"
  shows "map_option gs_selector (llmPlan page st config (HttpResponse status (Completion t)))
           = Some (el_selector e)"
proof -
  have "0 \<le> parseInt10 ds" using ma by (simp add: matchAction_digits parseInt10_nonneg)
  then have "\<not> parseInt10 ds < 0" by simp
  then show ?thesis
    using ok ma nw fi by (simp add: llmPlan_def Let_def mkStep_def)
qed

subsection \<open>Fields that the handlers and the core flow leave alone\<close>


lemma closeStep_fields:
  "step (state (closeStep f orc)) = step (state orc) + 1"
  "completed (state (closeStep f orc)) = completed (state orc)"
  "active (state (closeStep f orc)) = active (state orc)"
  by (simp_all add: closeStep_def pushHistory_def Let_def split: option.splits)

lemma planAndCommit_fields:
  "step (state (fst (planAndCommit env page orc))) = step (state orc)"
  "history (state (fst (planAndCommit env page orc))) = history (state orc)"
  "completed (state (fst (planAndCommit env page orc))) = completed (state orc)"
  "active (state (fst (planAndCommit env page orc))) = active (state orc)"
  by (simp_all add: planAndCommit_def Let_def split: option.splits)

lemma processTab_fields:
  "step (state (fst (processTab env orc))) = step (state orc)"
  "history (state (fst (processTab env orc))) = history (state orc)"
  "active (state (fst (processTab env orc))) = active (state orc)"
  "completed (state orc) \<Longrightarrow> processTab env orc = (orc, [], False)"
  by (simp_all add: processTab_def planAndCommit_fields Let_def split: ExtractResult.splits)

lemma retryTab_fields:
  "step (state (fst (retryTab env orc))) = step (state orc)"
  "history (state (fst (retryTab env orc))) = history (state orc)"
  "active (state (fst (retryTab env orc))) = active (state orc)"
  "completed (state (fst (retryTab env orc))) = completed (state orc)"
  by (simp_all add: retryTab_def Let_def split: ExtractResult.splits option.splits)

lemma fire_completed:
  "\<not> isReset e \<Longrightarrow> completed (state orc) \<Longrightarrow> completed (state (fire e orc))"
proof (cases e)
  case (Received m)
  assume "\<not> isReset e" "completed (state orc)"
  with Received show ?thesis
    by (cases m) (simp_all add: closeStep_fields)
next
  case (ProcessTab env)
  assume "completed (state orc)"
  with ProcessTab show ?thesis by (simp add: processTab_fields)
next
  case (RetryTab env)
  assume "completed (state orc)"
  with RetryTab show ?thesis by (simp add: retryTab_fields)
qed

lemma fire_active:
  "\<not> isReset e \<Longrightarrow> active (state (fire e orc)) = active (state orc)"
proof (cases e)
  case (Received m)
  assume "\<not> isReset e"
  with Received show ?thesis
    by (cases m) (simp_all add: closeStep_fields)
next
  case (ProcessTab env)
  then show ?thesis by (simp add: processTab_fields)
next
  case (RetryTab env)
  then show ?thesis by (simp add: retryTab_fields)
qed

lemma fire_step:
  "\<not> isReset e \<Longrightarrow>
     step (state (fire e orc)) =
       step (state orc) + (if advances (active (state orc)) e then 1 else 0)"
proof (cases e)
  case (Received m)
  assume "\<not> isReset e"
  with Received show ?thesis
    by (cases m) (simp_all add: closeStep_fields)
next
  case (ProcessTab env)
  then show ?thesis by (simp add: processTab_fields)
next
  case (RetryTab env)
  then show ?thesis by (simp add: retryTab_fields)
qed

lemma run_Cons: "run (e # es) orc = run es (fire e orc)"
  by (simp add: run_def)

lemma run_completed:
  "\<forall>e\<in>set es. \<not> isReset e \<Longrightarrow> completed (state orc) \<Longrightarrow> completed (state (run es orc))"
proof (induction es arbitrary: orc)
  case Nil
  then show ?case by (simp add: run_def)
next
  case (Cons e es)
  then show ?case by (simp add: run_Cons fire_completed)
qed

lemma run_step:
  "\<forall>e\<in>set es. \<not> isReset e \<Longrightarrow>
     step (state (run es orc)) =
       step (state orc) + int (length (filter (advances (active (state orc))) es))"
proof (induction es arbitrary: orc)
  case Nil
  then show ?case by (simp add: run_def)
next
  case (Cons e es)
  then show ?case by (simp add: run_Cons fire_step fire_active)
qed

subsection \<open>Planning, committing and loop detection\<close>

lemma processTab_commit:
  assumes "ToTab (SHOW_STEP s) \<in> set (fst (snd (processTab env orc)))"
  shows "\<exists>page. extractResp env = ExtractPage page \<and> plan page orc (llmReply env) = Some s
           \<and> \<not> isStuck (state orc) s
           \<and> fst (processTab env orc) = orc\<lparr>state := (state orc)\<lparr>current := Some s\<rparr>\<rparr>"
  using assms
  by (auto simp: processTab_def planAndCommit_def Let_def
           split: ExtractResult.splits option.splits if_splits)

lemma retryTab_commit:
  assumes "ToTab (SHOW_STEP s) \<in> set (snd (retryTab env orc))"
  shows "\<exists>page. extractResp env = ExtractPage page \<and> plan page orc (llmReply env) = Some s
           \<and> fst (retryTab env orc) = orc\<lparr>state := (state orc)\<lparr>current := Some s\<rparr>\<rparr>"
  using assms
  by (auto simp: retryTab_def Let_def
           split: ExtractResult.splits option.splits if_splits)

lemma plan_heuristic_mode:
  "mode (state orc) = Heuristic \<Longrightarrow> plan page orc reply = heuristicPlan page (state orc)"
  by (simp add: plan_def split: option.splits)



lemma isStuck_iff:
  "isStuck st s =
     (3 \<le> length (history st)
      \<and> ((\<forall>h\<in>set (recent3 st). ar_selector h = gs_selector s)
         \<or> (3 < length (textHint s) \<and> (\<forall>h\<in>set (recent3 st). ar_text h = textHint s))))"
  by (auto simp: isStuck_def recent3_def Let_def list_all_iff)

text \<open>
  What a run of \<open>processTab\<close> that reads the page and gets a candidate does with it: a
  stuck candidate is discarded with the notice, any other is committed and shown.
\<close>

lemma processTab_loop_detection:
  assumes "active (state orc)" "\<not> completed (state orc)" "\<not> processing orc"
    and "\<not> isRestrictedUrl (tabUrl env)" "extractResp env = ExtractPage page"
    and "\<not> (1 < step (state orc) \<and> isSuccessPage page)"
    and "plan page orc (llmReply env) = Some c"
  shows "processTab env orc =
           (if isStuck (state orc) c then
              (orc\<lparr>state := (state orc)\<lparr>current := None\<rparr>\<rparr>,
               [Broadcast (ERROR stuckMsg), Broadcast (STATE ((state orc)\<lparr>current := None\<rparr>)),
                Broadcast (ERROR noStepMsg)],
               False)
            else
              (orc\<lparr>state := (state orc)\<lparr>current := Some c\<rparr>\<rparr>,
               [Broadcast (STATE ((state orc)\<lparr>current := Some c\<rparr>)), ToTab (SHOW_STEP c)],
               \<not> showStepOk env))"
proof -
  have "processTab env orc = planAndCommit env page orc"
    using assms by (auto simp add: processTab_def)
  then show ?thesis
    using assms by (simp add: planAndCommit_def Let_def)
qed



text \<open>What \<open>detectPhase\<close> tests before it answers \<open>login\<close>.\<close>

lemma detectPhase_login_iff:
  "(detectPhase page = Login) =
     (\<not> list_ex (includesJS (toLowerCase (title page @ '' '' @ url page))) SUCCESS_WORDS
      \<and> \<not> list_ex (includesJS (joinSp (map (\<lambda>e. toLowerCase (el_text e))
                                      (take 20 (elements page))))) SUCCESS_WORDS
      \<and> hasEmailInput page \<and> hasPasswordInput page)"
  by (simp add: detectPhase_def Let_def)

subsection \<open>Behaviour at the edges of the properties\<close>

text \<open>
  A record pushed while the history is the shared array survives \<open>STOP\<close> and \<open>START\<close>: the
  new session starts with it.
\<close>

lemma start_keeps_shared_history:
  "map ar_selector
     (history (state (run [Received (START ''submit the order'' Heuristic),
                           ProcessTab (fx_env checkoutPage replyClick0),
                           Received SKIP, Received STOP,
                           Received (START ''submit the order'' Heuristic)] freshOrc)))
   = [''#submit'']"
  by code_simp

section \<open>Properties\<close>

text \<open>
  C1 (as amended). With a panel open, a step that \<open>heuristicPlan\<close> returns by ranking (some
  element has a positive score) is built from an element inside the panel: the veto score
  of an outside element keeps it out of the ranking. \<open>llmPlan\<close> returns a step only for the
  first element whose \<open>idx\<close> is the number that the reply's action names; it does return
  one whenever the reply is a 2xx completion whose action is not \<open>wait\<close> and names the
  \<open>idx\<close> of an element; and its result is the same however the \<open>isInDialog\<close> flags of
  the snapshot are set, so the flag plays no part in the choice.
\<close>

theorem panel_exclusivity_ranked_path:
  assumes dlg: "hasOpenDialog page"
  shows "((\<exists>e\<in>set (elements page). 0 < scoreOf page st e) \<and> heuristicPlan page st = Some s
            \<longrightarrow> (\<exists>best\<in>set (elements page). isInDialog best \<and> 0 < scoreOf page st best
                   \<and> s = stepFor page st best (actionFor best)))
       \<and> (llmPlan page st config reply = Some s'
            \<longrightarrow> (\<exists>status t name ds e.
                   reply = HttpResponse status (Completion t)
                   \<and> matchAction (t @ ''</Action>'') = Some (name, Some ds)
                   \<and> find (\<lambda>x. idx x = parseInt10 ds) (elements page) = Some e
                   \<and> gs_selector s' = el_selector e
                   \<and> textHint s' = substring0 (el_text e) 60))
       \<and> (200 \<le> status \<and> status \<le> 299
            \<and> matchAction (t @ ''</Action>'') = Some (name, Some ds)
            \<and> toLowerCase name \<noteq> ''wait''
            \<and> find (\<lambda>x. idx x = parseInt10 ds) (elements page) = Some e
            \<longrightarrow> map_option gs_selector
                  (llmPlan page st config (HttpResponse status (Completion t)))
                = Some (el_selector e))
       \<and> llmPlan (page\<lparr>elements := map (\<lambda>x. x\<lparr>isInDialog := flag x\<rparr>) (elements page)\<rparr>)
            st config reply
          = llmPlan page st config reply"
proof (intro conjI impI)
  assume a: "(\<exists>e\<in>set (elements page). 0 < scoreOf page st e) \<and> heuristicPlan page st = Some s"
  then have ns: "\<not> (detectPhase page = Success \<and> step st > 1)"
    using heuristicPlan_success_guard by fastforce
  from a have pos: "\<exists>e\<in>set (elements page). scoreOf page st e > 0" by simp
  from heuristicPlan_ranked_path [OF ns pos] obtain pre best post where
    d: "elements page = pre @ best # post" and bp: "scoreOf page st best > 0"
    and r: "heuristicPlan page st =
              Some (mkStep st best (actionFor best)
                      (instructionFor best (actionFor best) (detectPhase page)))"
    by blast
  have "isInDialog best"
    using bp dlg score_pos_dialog unfolding scoreOf_def by blast
  moreover have "best \<in> set (elements page)" using d by simp
  moreover have "s = stepFor page st best (actionFor best)"
    using a r by (simp add: stepFor_def)
  ultimately show "\<exists>best\<in>set (elements page). isInDialog best \<and> 0 < scoreOf page st best
                   \<and> s = stepFor page st best (actionFor best)"
    using bp by blast
next
  assume "llmPlan page st config reply = Some s'"
  from llmPlan_named [OF this]
  show "\<exists>status t name ds e.
                   reply = HttpResponse status (Completion t)
                   \<and> matchAction (t @ ''</Action>'') = Some (name, Some ds)
                   \<and> find (\<lambda>x. idx x = parseInt10 ds) (elements page) = Some e
                   \<and> gs_selector s' = el_selector e
                   \<and> textHint s' = substring0 (el_text e) 60"
    by blast
next
  assume "200 \<le> status \<and> status \<le> 299
            \<and> matchAction (t @ ''</Action>'') = Some (name, Some ds)
            \<and> toLowerCase name \<noteq> ''wait''
            \<and> find (\<lambda>x. idx x = parseInt10 ds) (elements page) = Some e"
  then show "map_option gs_selector
                  (llmPlan page st config (HttpResponse status (Completion t)))
                = Some (el_selector e)"
    by (simp add: llmPlan_returns_named)
next
  show "llmPlan (page\<lparr>elements := map (\<lambda>x. x\<lparr>isInDialog := flag x\<rparr>) (elements page)\<rparr>)
            st config reply
          = llmPlan page st config reply"
    using llmPlan_isInDialog [where page = page and flag = flag and d = "hasOpenDialog page"]
    by simp
qed

text \<open>
  C1 as stated fails: with the panel open, a reply \<open>click(1)\<close> makes \<open>llmPlan\<close> return a
  step for \<open>#submit\<close>, the button outside the panel. The fallbacks of \<open>heuristicPlan\<close> do not
  test \<open>isInDialog\<close> either: when the outside button is the only element, it scores
  \<open>-2000\<close>, drops out of the ranking, and the button fallback returns it.
\<close>

theorem panel_exclusivity_counterexample:
  "hasOpenDialog panelPage
   \<and> map_option gs_selector (llmPlan panelPage panelSession fx_config replyClick1) = Some ''#submit''
   \<and> map (\<lambda>e. (el_selector e, isInDialog e)) (elements panelPage)
       = [(''#send'', True), (''#submit'', False)]
   \<and> hasOpenDialog occludedPage
   \<and> map (\<lambda>e. (el_selector e, isInDialog e)) (elements occludedPage) = [(''#submit'', False)]
   \<and> map (scoreOf occludedPage panelSession) (elements occludedPage) = [- 2000]
   \<and> map_option gs_selector (heuristicPlan occludedPage panelSession) = Some ''#submit''"
  by code_simp

text \<open>
  C1, instance: the panel's \<open>Send\<close> button is chosen by the ranking and by a reply
  \<open>click(0)\<close>, also when every \<open>isInDialog\<close> flag is cleared.
\<close>

theorem panel_exclusivity_witness:
  "hasOpenDialog panelPage
   \<and> 0 < scoreOf panelPage panelSession (fx_button 0 ''Send'' ''#send'' True)
   \<and> heuristicPlan panelPage panelSession
       = Some (stepFor panelPage panelSession (fx_button 0 ''Send'' ''#send'' True) Click)
   \<and> isInDialog (fx_button 0 ''Send'' ''#send'' True)
   \<and> matchAction (''<Action>click(0)'' @ ''</Action>'') = Some (''click'', Some ''0'')
   \<and> find (\<lambda>x. idx x = parseInt10 ''0'') (elements panelPage)
       = Some (fx_button 0 ''Send'' ''#send'' True)
   \<and> map_option gs_selector
        (llmPlan panelPage panelSession fx_config
           (HttpResponse 200 (Completion ''<Action>click(0)''))) = Some ''#send''
   \<and> llmPlan (panelPage\<lparr>elements := map (\<lambda>x. x\<lparr>isInDialog := False\<rparr>) (elements panelPage)\<rparr>)
        panelSession fx_config (HttpResponse 200 (Completion ''<Action>click(0)''))
       = llmPlan panelPage panelSession fx_config
           (HttpResponse 200 (Completion ''<Action>click(0)''))"
proof -
  let ?send = "fx_button 0 ''Send'' ''#send'' True"
  have h: "hasOpenDialog panelPage" by code_simp
  have p: "0 < scoreOf panelPage panelSession ?send" by code_simp
  have r: "heuristicPlan panelPage panelSession
       = Some (stepFor panelPage panelSession ?send Click)"
    by code_simp
  have d: "isInDialog ?send" by code_simp
  have m: "matchAction (''<Action>click(0)'' @ ''</Action>'') = Some (''click'', Some ''0'')"
    by code_simp
  have f: "find (\<lambda>x. idx x = parseInt10 ''0'') (elements panelPage) = Some ?send"
    by code_simp
  have ok: "200 \<le> (200::int) \<and> (200::int) \<le> 299" by simp
  have nw: "toLowerCase ''click'' \<noteq> ''wait''" by code_simp
  have sel: "el_selector ?send = ''#send''" by code_simp
  note t = panel_exclusivity_ranked_path [OF h, of panelSession
      "stepFor panelPage panelSession ?send Click" fx_config
      "HttpResponse 200 (Completion ''<Action>click(0)'')"
      "stepFor panelPage panelSession ?send Click" 200 "''<Action>click(0)''" "''click''" "''0''"
      ?send "\<lambda>x. False"]
  from t ok m nw f
  have l: "map_option gs_selector
        (llmPlan panelPage panelSession fx_config
           (HttpResponse 200 (Completion ''<Action>click(0)''))) = Some ''#send''"
    unfolding sel by blast
  from t have i: "llmPlan (panelPage\<lparr>elements := map (\<lambda>x. x\<lparr>isInDialog := False\<rparr>) (elements panelPage)\<rparr>)
        panelSession fx_config (HttpResponse 200 (Completion ''<Action>click(0)''))
       = llmPlan panelPage panelSession fx_config
           (HttpResponse 200 (Completion ''<Action>click(0)''))"
    by blast
  from h p r d m f l i show ?thesis by blast
qed

text \<open>
  C2 (as amended). In heuristic mode a step that a run of \<open>processTab\<close>, or its retry,
  commits as \<open>current\<close> has a selector that no record of the history carries: a used
  selector scores \<open>-1000\<close> and both fallbacks skip it.
\<close>

theorem no_repeat_heuristic_mode:
  assumes m: "mode (state orc) = Heuristic"
  shows "(ToTab (SHOW_STEP s) \<in> set (fst (snd (processTab env orc)))
            \<longrightarrow> current (state (fst (processTab env orc))) = Some s
                \<and> gs_selector s \<notin> set (map ar_selector (history (state orc))))
       \<and> (ToTab (SHOW_STEP s) \<in> set (snd (retryTab env orc))
            \<longrightarrow> current (state (fst (retryTab env orc))) = Some s
                \<and> gs_selector s \<notin> set (map ar_selector (history (state orc))))"
proof (intro conjI impI)
  assume "ToTab (SHOW_STEP s) \<in> set (fst (snd (processTab env orc)))"
  from processTab_commit [OF this] obtain page where
    p: "plan page orc (llmReply env) = Some s"
    and c: "fst (processTab env orc) = orc\<lparr>state := (state orc)\<lparr>current := Some s\<rparr>\<rparr>"
    by blast
  from p m have "heuristicPlan page (state orc) = Some s" by (simp add: plan_heuristic_mode)
  from heuristicPlan_unused [OF this]
  show "gs_selector s \<notin> set (map ar_selector (history (state orc)))"
    by (simp add: usedSelectorsOf_def)
  show "current (state (fst (processTab env orc))) = Some s" using c by simp
next
  assume "ToTab (SHOW_STEP s) \<in> set (snd (retryTab env orc))"
  from retryTab_commit [OF this] obtain page where
    p: "plan page orc (llmReply env) = Some s"
    and c: "fst (retryTab env orc) = orc\<lparr>state := (state orc)\<lparr>current := Some s\<rparr>\<rparr>"
    by blast
  from p m have "heuristicPlan page (state orc) = Some s" by (simp add: plan_heuristic_mode)
  from heuristicPlan_unused [OF this]
  show "gs_selector s \<notin> set (map ar_selector (history (state orc)))"
    by (simp add: usedSelectorsOf_def)
  show "current (state (fst (retryTab env orc))) = Some s" using c by simp
qed

text \<open>
  C2 as stated fails in llm mode: the history holds \<open>#submit\<close>, the reply names that
  element again, and the pass commits it.
\<close>

theorem no_repeat_counterexample:
  "mode (state (fx_orc (onceSubmitted Llm))) = Llm
   \<and> map ar_selector (history (state (fx_orc (onceSubmitted Llm)))) = [''#submit'']
   \<and> map_option gs_selector
       (current (state (fst (processTab (fx_env checkoutPage replyClick0)
                               (fx_orc (onceSubmitted Llm)))))) = Some ''#submit''"
  by code_simp

text \<open>
  C2, instance: with \<open>#submit\<close> in the history the heuristic pass commits \<open>#next\<close>.
\<close>

theorem no_repeat_witness:
  "mode (state (fx_orc (onceSubmitted Heuristic))) = Heuristic
   \<and> ToTab (SHOW_STEP nextStep)
        \<in> set (fst (snd (processTab (fx_env checkoutPage replyClick0)
                           (fx_orc (onceSubmitted Heuristic)))))
   \<and> current (state (fst (processTab (fx_env checkoutPage replyClick0)
                           (fx_orc (onceSubmitted Heuristic))))) = Some nextStep
   \<and> gs_selector nextStep = ''#next''
   \<and> map ar_selector (history (state (fx_orc (onceSubmitted Heuristic)))) = [''#submit'']"
proof -
  let ?orc = "fx_orc (onceSubmitted Heuristic)"
  let ?env = "fx_env checkoutPage replyClick0"
  have m: "mode (state ?orc) = Heuristic" by code_simp
  have c: "ToTab (SHOW_STEP nextStep) \<in> set (fst (snd (processTab ?env ?orc)))" by code_simp
  have s: "gs_selector nextStep = ''#next''" by code_simp
  have h: "map ar_selector (history (state ?orc)) = [''#submit'']" by code_simp
  from no_repeat_heuristic_mode [OF m, of nextStep ?env] c m s h
  show ?thesis by blast
qed

text \<open>
  C3 (as amended). Once \<open>completed\<close> is true it stays true under every sequence of
  events that holds neither \<open>START\<close> nor \<open>STOP\<close>: rescans, navigation changes, confirmed
  actions, skips, runs of \<open>processTab\<close> and retries. \<open>START\<close> and \<open>STOP\<close> both install a
  state with \<open>completed = false\<close>.
\<close>

theorem completion_latch:
  "(completed (state orc) \<and> (\<forall>e\<in>set es. \<not> isReset e) \<longrightarrow> completed (state (run es orc)))
   \<and> \<not> completed (state (onMessage (START g m) orc))
   \<and> \<not> completed (state (onMessage STOP orc))"
  by (simp add: run_completed EMPTY_STATE_def)

text \<open>
  C3 as stated fails: \<open>STOP\<close> alone, without a \<open>START\<close>, yields \<open>completed = false\<close>.
\<close>

theorem completion_latch_counterexample:
  "completed (state completedOrc) \<and> \<not> completed (state (onMessage STOP completedOrc))"
  by code_simp

text \<open>
  C3, instance: a completed session stays completed along a trace of seven events.
\<close>

theorem completion_latch_witness:
  "completed (state completedOrc) \<and> list_all (\<lambda>e. \<not> isReset e) quietTrace
   \<and> completed (state (run quietTrace completedOrc))
   \<and> \<not> completed (state (onMessage (START ''submit the order'' Heuristic) completedOrc))"
proof -
  have c: "completed (state completedOrc)" by code_simp
  have q: "list_all (\<lambda>e. \<not> isReset e) quietTrace" by code_simp
  then have q': "\<forall>e\<in>set quietTrace. \<not> isReset e" by (simp add: list_all_iff)
  from completion_latch [of completedOrc quietTrace "''submit the order''" Heuristic] c q q'
  show ?thesis by blast
qed



text \<open>
  C5. \<open>isStuck\<close> is as the claim describes it and the \<open>try\<close> block of \<open>processTab\<close> discards
  a stuck candidate, but the retry that the \<open>catch\<close> block of the same function schedules
  does not run \<open>isStuck\<close>. With three records for \<open>#submit\<close> and a candidate for \<open>#submit\<close>:
  a pass that reads the page discards the candidate, broadcasts the stuck notice and
  leaves \<open>current\<close> empty; a pass whose \<open>EXTRACT\<close> is rejected changes nothing and
  schedules the retry; the retry commits the candidate and sends \<open>SHOW_STEP\<close>, with no
  notice.
\<close>

theorem stuck_detection_skipped_by_retry:
  "map ar_selector (recent3 (thriceSubmitted Llm)) = [''#submit'', ''#submit'', ''#submit'']
   \<and> gs_selector submitStep = ''#submit''
   \<and> plan checkoutPage (fx_orc (thriceSubmitted Llm)) replyClick0 = Some submitStep
   \<and> isStuck (thriceSubmitted Llm) submitStep
   \<and> processTab (fx_env checkoutPage replyClick0) (fx_orc (thriceSubmitted Llm))
       = (fx_orc (thriceSubmitted Llm),
          [Broadcast (ERROR stuckMsg), Broadcast (STATE (thriceSubmitted Llm)),
           Broadcast (ERROR noStepMsg)],
          False)
   \<and> processTab ((fx_env checkoutPage replyClick0)\<lparr>extractResp := ExtractThrows\<rparr>)
         (fx_orc (thriceSubmitted Llm))
       = (fx_orc (thriceSubmitted Llm), [], True)
   \<and> retryTab (fx_env checkoutPage replyClick0) (fx_orc (thriceSubmitted Llm))
       = (fx_orc ((thriceSubmitted Llm)\<lparr>current := Some submitStep\<rparr>),
          [Broadcast (STATE ((thriceSubmitted Llm)\<lparr>current := Some submitStep\<rparr>)),
           ToTab (SHOW_STEP submitStep)])"
  by code_simp

text \<open>
  C5, read off the retry: the stuck candidate ends up as \<open>current\<close>, it is shown, and the
  stuck notice is not among the retry's messages.
\<close>

theorem stuck_detection_skipped_by_retry_witness:
  "isStuck (thriceSubmitted Llm) submitStep
   \<and> current (state (fst (retryTab (fx_env checkoutPage replyClick0)
                          (fx_orc (thriceSubmitted Llm))))) = Some submitStep
   \<and> ToTab (SHOW_STEP submitStep)
        \<in> set (snd (retryTab (fx_env checkoutPage replyClick0) (fx_orc (thriceSubmitted Llm))))
   \<and> Broadcast (ERROR stuckMsg)
        \<notin> set (snd (retryTab (fx_env checkoutPage replyClick0) (fx_orc (thriceSubmitted Llm))))"
proof -
  note t = stuck_detection_skipped_by_retry
  from t have s: "isStuck (thriceSubmitted Llm) submitStep" by blast
  from t have r: "retryTab (fx_env checkoutPage replyClick0) (fx_orc (thriceSubmitted Llm))
       = (fx_orc ((thriceSubmitted Llm)\<lparr>current := Some submitStep\<rparr>),
          [Broadcast (STATE ((thriceSubmitted Llm)\<lparr>current := Some submitStep\<rparr>)),
           ToTab (SHOW_STEP submitStep)])"
    by blast
  show ?thesis
    unfolding r using s by (simp add: fx_orc_def)
qed

text \<open>
  C6 (as amended). \<open>SKIP\<close> adds 1 to \<open>step\<close>; \<open>ACTION_DONE\<close> adds 1 when the session is
  active and changes nothing otherwise; \<open>RESCAN\<close> changes nothing; a run of \<open>processTab\<close>
  leaves \<open>step\<close> and \<open>history\<close> alone. Along a sequence of events without \<open>START\<close> and
  \<open>STOP\<close> the counter grows by the number of skips and of confirmed actions of an active
  session, so it never decreases there; \<open>START\<close> and \<open>STOP\<close> set it back to 1.
\<close>

theorem step_counter:
  "step (state (onMessage SKIP orc)) = step (state orc) + 1
   \<and> step (state (onMessage (ACTION_DONE a) orc))
       = (if active (state orc) then step (state orc) + 1 else step (state orc))
   \<and> onMessage RESCAN orc = orc
   \<and> step (state (fst (processTab env orc))) = step (state orc)
   \<and> history (state (fst (processTab env orc))) = history (state orc)
   \<and> ((\<forall>e\<in>set es. \<not> isReset e)
        \<longrightarrow> step (state (run es orc))
             = step (state orc) + int (length (filter (advances (active (state orc))) es)))
   \<and> step (state (onMessage (START g m) orc)) = 1
   \<and> step (state (onMessage STOP orc)) = 1"
  by (simp add: closeStep_fields processTab_fields run_step EMPTY_STATE_def)

text \<open>
  C6 as stated fails: an \<open>ACTION_DONE\<close> that reaches an inactive session does not advance
  the counter, and \<open>START\<close> takes it from 5 down to 1.
\<close>

theorem step_counter_counterexample:
  "\<not> active (state idleOrc)
   \<and> step (state idleOrc) = 5
   \<and> step (state (onMessage (ACTION_DONE Click) idleOrc)) = 5
   \<and> step (state (onMessage (START ''submit the order'' Heuristic) idleOrc)) = 1"
  by code_simp

text \<open>
  C6, instance: a trace with one confirmed action and one skip takes the counter from 2
  to 4.
\<close>

theorem step_counter_witness:
  "list_all (\<lambda>e. \<not> isReset e) quietTrace
   \<and> step (state (fx_orc (onceSubmitted Heuristic))) = 2
   \<and> length (filter (advances True) quietTrace) = 2
   \<and> step (state (run quietTrace (fx_orc (onceSubmitted Heuristic)))) = 4"
proof -
  let ?orc = "fx_orc (onceSubmitted Heuristic)"
  have q: "list_all (\<lambda>e. \<not> isReset e) quietTrace" by code_simp
  then have q': "\<forall>e\<in>set quietTrace. \<not> isReset e" by (simp add: list_all_iff)
  have a: "active (state ?orc) = True" by code_simp
  have s: "step (state ?orc) = 2" by code_simp
  have n: "length (filter (advances True) quietTrace) = 2" by code_simp
  from step_counter [of ?orc Click "fx_env checkoutPage replyClick0" quietTrace
      "''submit the order''" Heuristic] q'
  have "step (state (run quietTrace ?orc))
          = step (state ?orc) + int (length (filter (advances (active (state ?orc))) quietTrace))"
    by blast
  then have "step (state (run quietTrace ?orc)) = 4"
    unfolding a s n by simp
  with q s n show ?thesis by blast
qed

text \<open>
  C7. The claim has the password-like test use the label, and the type without regard to
  case; \<open>detectPhase\<close> does neither. On a form with an e-mail input and an input labelled
  \<open>Password\<close> (no \<open>type\<close>, no placeholder) it finds no password input and answers
  \<open>form-fill\<close>, not \<open>login\<close>; likewise when the second input has \<open>type="PASSWORD"\<close>.
\<close>

theorem detectPhase_label_only_password:
  "hasEmailInput labelledLoginPage
   \<and> map (\<lambda>e. (isInput e, inputType e, label e)) (elements labelledLoginPage)
       = [(True, Some ''email'', ''Email''), (True, None, ''Password'')]
   \<and> \<not> hasPasswordInput labelledLoginPage
   \<and> detectPhase labelledLoginPage = FormFill
   \<and> hasEmailInput capitalTypeLoginPage
   \<and> map (\<lambda>e. (isInput e, inputType e, label e)) (elements capitalTypeLoginPage)
       = [(True, Some ''email'', ''Email''), (True, Some ''PASSWORD'', [])]
   \<and> \<not> hasPasswordInput capitalTypeLoginPage
   \<and> detectPhase capitalTypeLoginPage = FormFill"
  by code_simp

text \<open>
  C8 (as amended). On a success page after the first step \<open>heuristicPlan\<close> returns
  \<open>null\<close>. Otherwise: when no element has a positive score it returns the first unfilled
  in-viewport input with an unused selector, else the first in-viewport element that is
  not an input, has an unused selector and is a button by tag or role or a link (with
  action \<open>click\<close>), else \<open>null\<close>; when some element has a positive score it returns the
  first element, in snapshot order, among those with the highest score.
\<close>

theorem heuristicPlan_selection:
  "(detectPhase page = Success \<and> 1 < step st \<longrightarrow> heuristicPlan page st = None)
   \<and> (\<not> (detectPhase page = Success \<and> 1 < step st)
        \<and> (\<forall>e\<in>set (elements page). scoreOf page st e \<le> 0)
        \<longrightarrow> heuristicPlan page st =
             (case find (\<lambda>e. isInput e \<and> \<not> truthy (isFilled e) \<and> isInViewport e
                            \<and> el_selector e \<notin> set (map ar_selector (history st)))
                     (elements page) of
                Some e \<Rightarrow> Some (stepFor page st e (actionFor e))
              | None \<Rightarrow>
                  (case find (\<lambda>e. \<not> isInput e \<and> isInViewport e
                                 \<and> el_selector e \<notin> set (map ar_selector (history st))
                                 \<and> (tag e = ''button'' \<or> role e = ''button'' \<or> tag e = ''a''))
                          (elements page) of
                     Some e \<Rightarrow> Some (stepFor page st e Click)
                   | None \<Rightarrow> None)))
   \<and> (\<not> (detectPhase page = Success \<and> 1 < step st)
        \<and> (\<exists>e\<in>set (elements page). 0 < scoreOf page st e)
        \<longrightarrow> (\<exists>pre best post. elements page = pre @ best # post
               \<and> 0 < scoreOf page st best
               \<and> (\<forall>e\<in>set pre. scoreOf page st e < scoreOf page st best)
               \<and> (\<forall>e\<in>set post. scoreOf page st e \<le> scoreOf page st best)
               \<and> heuristicPlan page st = Some (stepFor page st best (actionFor best))))"
proof (intro conjI impI)
  show "heuristicPlan page st = None" if "detectPhase page = Success \<and> 1 < step st"
    using that by (simp add: heuristicPlan_success_guard)
next
  assume a: "\<not> (detectPhase page = Success \<and> 1 < step st)
        \<and> (\<forall>e\<in>set (elements page). scoreOf page st e \<le> 0)"
  have i: "isFallbackInput (usedSelectorsOf st) =
             (\<lambda>e. isInput e \<and> \<not> truthy (isFilled e) \<and> isInViewport e
                   \<and> el_selector e \<notin> set (map ar_selector (history st)))"
    by (simp add: isFallbackInput_def usedSelectorsOf_def fun_eq_iff)
  have b: "isFallbackButton (usedSelectorsOf st) =
             (\<lambda>e. \<not> isInput e \<and> isInViewport e
                   \<and> el_selector e \<notin> set (map ar_selector (history st))
                   \<and> (tag e = ''button'' \<or> role e = ''button'' \<or> tag e = ''a''))"
    by (simp add: isFallbackButton_def usedSelectorsOf_def fun_eq_iff)
  from a have ns: "\<not> (detectPhase page = Success \<and> step st > 1)"
    and np: "\<forall>e\<in>set (elements page). scoreOf page st e \<le> 0" by simp_all
  show "heuristicPlan page st =
             (case find (\<lambda>e. isInput e \<and> \<not> truthy (isFilled e) \<and> isInViewport e
                            \<and> el_selector e \<notin> set (map ar_selector (history st)))
                     (elements page) of
                Some e \<Rightarrow> Some (stepFor page st e (actionFor e))
              | None \<Rightarrow>
                  (case find (\<lambda>e. \<not> isInput e \<and> isInViewport e
                                 \<and> el_selector e \<notin> set (map ar_selector (history st))
                                 \<and> (tag e = ''button'' \<or> role e = ''button'' \<or> tag e = ''a''))
                          (elements page) of
                     Some e \<Rightarrow> Some (stepFor page st e Click)
                   | None \<Rightarrow> None))"
    unfolding heuristicPlan_fallback_path [OF ns np] i b stepFor_def ..
next
  assume a: "\<not> (detectPhase page = Success \<and> 1 < step st)
        \<and> (\<exists>e\<in>set (elements page). 0 < scoreOf page st e)"
  then have ns: "\<not> (detectPhase page = Success \<and> step st > 1)"
    and pos: "\<exists>e\<in>set (elements page). scoreOf page st e > 0" by simp_all
  from heuristicPlan_ranked_path [OF ns pos]
  show "\<exists>pre best post. elements page = pre @ best # post
               \<and> 0 < scoreOf page st best
               \<and> (\<forall>e\<in>set pre. scoreOf page st e < scoreOf page st best)
               \<and> (\<forall>e\<in>set post. scoreOf page st e \<le> scoreOf page st best)
               \<and> heuristicPlan page st = Some (stepFor page st best (actionFor best))"
    unfolding stepFor_def .
qed

text \<open>
  C8 as stated fails twice: on a success page at step 2 an element scores 10 and nothing
  is returned; and an in-viewport, unused, filled input with role \<open>button\<close> is passed
  over by the second fallback.
\<close>

theorem heuristicPlan_selection_counterexample:
  "detectPhase receiptPage = Success
   \<and> map (scoreOf receiptPage (buyer 2)) (elements receiptPage) = [10]
   \<and> heuristicPlan receiptPage (buyer 2) = None
   \<and> map (scoreOf inputButtonPage (buyer 1)) (elements inputButtonPage) = [- 19]
   \<and> map (\<lambda>e. (isInput e, truthy (isFilled e), isInViewport e, role e, el_selector e))
         (elements inputButtonPage) = [(True, True, True, ''button'', ''#go'')]
   \<and> history (buyer 1) = []
   \<and> detectPhase inputButtonPage = SubmitReady
   \<and> heuristicPlan inputButtonPage (buyer 1) = None"
  by code_simp

text \<open>
  C8, instances: the ranking picks \<open>Full Name\<close>; with no positive score the input is
  preferred to the button that precedes it; the success page yields nothing.
\<close>

theorem heuristicPlan_selection_witness:
  "detectPhase licencePage = FormFill
   \<and> map (scoreOf licencePage licenceSession) (elements licencePage) = [- 22, 45]
   \<and> map_option gs_selector (heuristicPlan licencePage licenceSession) = Some ''#name''
   \<and> map (scoreOf consentPage (buyer 1)) (elements consentPage) = [- 14, - 40]
   \<and> heuristicPlan consentPage (buyer 1)
       = Some (stepFor consentPage (buyer 1)
                 (fx_input 1 ''Reject cookie terms'' ''#consent'' (Some ''text'') False False) Type)
   \<and> heuristicPlan receiptPage (buyer 2) = None"
proof -
  have p1: "detectPhase licencePage = FormFill" by code_simp
  have s1: "map (scoreOf licencePage licenceSession) (elements licencePage) = [- 22, 45]"
    by code_simp
  have r1: "map_option gs_selector (heuristicPlan licencePage licenceSession) = Some ''#name''"
    by code_simp
  have s2: "map (scoreOf consentPage (buyer 1)) (elements consentPage) = [- 14, - 40]"
    by code_simp
  have r2: "heuristicPlan consentPage (buyer 1)
       = Some (stepFor consentPage (buyer 1)
                 (fx_input 1 ''Reject cookie terms'' ''#consent'' (Some ''text'') False False) Type)"
    by code_simp
  have g3: "detectPhase receiptPage = Success \<and> 1 < step (buyer 2)" by code_simp
  from heuristicPlan_selection [of receiptPage "buyer 2"] g3
  have r3: "heuristicPlan receiptPage (buyer 2) = None" by blast
  note at_licence = heuristicPlan_selection [of licencePage licenceSession]
  note at_consent = heuristicPlan_selection [of consentPage "buyer 1"]
  from at_licence at_consent p1 s1 r1 s2 r2 r3 show ?thesis by blast
qed

text \<open>
  C10. A snapshot with no elements never yields a step: whatever the goal, the history,
  the step counter, the page title and URL (hence the phase) and the dialog flag are,
  \<open>heuristicPlan\<close> returns \<open>null\<close>.
\<close>

theorem heuristicPlan_no_elements:
  "heuristicPlan (page\<lparr>elements := []\<rparr>) st = None"
  by (simp add: heuristicPlan_def)

end
